theory Spec2Isabelle
  imports Main
begin

section \<open>Strings, errors and raw commits\<close>

text \<open>
  A Python \<^verbatim>\<open>str\<close> is a sequence of Unicode code points, so it is modelled as a list of
  natural numbers: \<^verbatim>\<open>len\<close> is \<open>length\<close>, a slice \<^verbatim>\<open>s[:n]\<close> is \<open>take n s\<close>.  The function
  \<open>ascii\<close> writes a literal of the source whose characters are all ASCII.
\<close>

type_synonym pystr = "nat list"

definition ascii :: "string \<Rightarrow> pystr" where
  "ascii s = map of_char s"

text \<open>
  The exceptions that can leave a method of \<^verbatim>\<open>GitHubCommitAnalyzer\<close>.  \<open>Exception\<close> stands
  for whatever an attribute access on a commit object raises; it carries \<^verbatim>\<open>str(e)\<close>.
\<close>

datatype error =
    KeyError pystr
  | ValueError pystr
  | AttributeError pystr
  | TypeError pystr
  | InvalidGitRepositoryError pystr
  | GitCommandError pystr
  | Exception pystr

text \<open>
  An attribute of a commit object either yields a value or raises: \<open>Inl msg\<close> is an access
  that raises an exception whose text is \<open>msg\<close>.
\<close>

type_synonym 'a attr = "pystr + 'a"

record actor =
  actor_name :: pystr
  actor_email :: pystr

record stats_total =
  total_insertions :: int
  total_deletions :: int

record raw_commit =
  hexsha :: "pystr attr"
  author :: "actor attr"
  committed_date :: "int attr"
  message :: "pystr attr"
  stats :: "stats_total attr"

text \<open>
  A repository handle: \<open>Log cs\<close> enumerates the history \<open>cs\<close>, newest commit first;
  \<open>NoLog e\<close> is a handle whose log cannot be read, \<^verbatim>\<open>iter_commits\<close> raising \<open>e\<close>: a
  \<^verbatim>\<open>ValueError\<close> where \<^verbatim>\<open>HEAD\<close> is missing or points to no commit yet, a \<^verbatim>\<open>GitCommandError\<close>
  where \<^verbatim>\<open>git rev-list\<close> fails.
\<close>

datatype git_repo = NoLog error | Log "raw_commit list"

definition iter_commits :: "git_repo \<Rightarrow> nat \<Rightarrow> error + raw_commit list" where
  "iter_commits r max_count =
     (case r of
        NoLog e \<Rightarrow> Inl e
      | Log cs \<Rightarrow> Inr (take max_count cs))"

section \<open>Commit records and the data frame\<close>

text \<open>
  One dictionary \<^verbatim>\<open>commit_info\<close>.  \<open>commit_time\<close> is the value of
  \<^verbatim>\<open>datetime.fromtimestamp(commit.committed_date)\<close>, kept as seconds since the epoch: the
  process is taken to run in UTC, where the naive local time and the epoch seconds order
  alike.
\<close>

record commit_info =
  commit_hash :: pystr
  author_name :: pystr
  author_email :: pystr
  commit_time :: int
  commit_message :: pystr
  insertions :: int
  deletions :: int

text \<open>\<^verbatim>\<open>str.strip()\<close>: the code points for which \<^verbatim>\<open>str.isspace\<close> holds are removed at both ends.\<close>

definition isspace :: "nat \<Rightarrow> bool" where
  "isspace c \<longleftrightarrow>
     (9 \<le> c \<and> c \<le> 13) \<or> (28 \<le> c \<and> c \<le> 32) \<or> c = 133 \<or> c = 160 \<or> c = 5760 \<or>
     (8192 \<le> c \<and> c \<le> 8202) \<or> c = 8232 \<or> c = 8233 \<or> c = 8239 \<or> c = 8287 \<or> c = 12288"

definition strip :: "pystr \<Rightarrow> pystr" where
  "strip s = rev (dropWhile isspace (rev (dropWhile isspace s)))"

text \<open>
  The calendar date of a day number (days since 1970-01-01) in the proleptic Gregorian
  calendar, as \<^verbatim>\<open>datetime\<close>, \<^verbatim>\<open>.dt.year\<close> and the month-end periods of pandas see it.  Days are counted
  from 1 March of year 0 and years from March to February, so that a leap day is the last
  day of its year: 400 years have 146097 days, a century has 36524 (the fourth of four one
  more), four years have 1461, and a year has 365 (the fourth of four one more).
  \<open>days_to_yearsdays\<close> yields the year counted from March and the day within it.
\<close>

definition days_to_yearsdays :: "int \<Rightarrow> int \<times> int" where
  "days_to_yearsdays z0 =
     (let z = z0 + 719468;
          era = z div 146097;
          doe = z mod 146097;
          cent = min 3 (doe div 36524);
          dc = doe - 36524 * cent;
          quad = dc div 1461;
          dq = dc mod 1461;
          yr = min 3 (dq div 365)
      in (400 * era + 100 * cent + 4 * quad + yr, dq - 365 * yr))"

definition civil_from_days :: "int \<Rightarrow> int \<times> int \<times> int" where
  "civil_from_days z =
     (case days_to_yearsdays z of
        (ym, doy) \<Rightarrow>
          (let mp = (5 * doy + 2) div 153;
               d = doy - (153 * mp + 2) div 5 + 1;
               m = (if mp < 10 then mp + 3 else mp - 9)
           in (ym + (if m \<le> 2 then 1 else 0), m, d)))"

definition dt_date :: "int \<Rightarrow> int" where
  "dt_date t = t div 86400"

definition dt_year :: "int \<Rightarrow> int" where
  "dt_year t = fst (civil_from_days (t div 86400))"

text \<open>\<^verbatim>\<open>str(n)\<close> for an integer: its decimal digits, after a minus sign if it is negative.\<close>

fun digits :: "nat \<Rightarrow> pystr" where
  "digits n = (if n < 10 then [48 + n] else digits (n div 10) @ [48 + n mod 10])"

declare digits.simps [simp del]

definition str_int :: "int \<Rightarrow> pystr" where
  "str_int i = (if i < 0 then 45 # digits (nat (- i)) else digits (nat i))"

text \<open>
  \<^verbatim>\<open>datetime.fromtimestamp\<close> returns for the seconds from the second day of year 1 to the end
  of year 9999: it also reads the time one day earlier (to tell a repeated hour), and a year
  outside 1 to 9999 raises \<^verbatim>\<open>ValueError\<close> with the year in its text, the year 0 of the day
  before on the first day of year 1.  An integer outside 64 bits is refused as a timestamp,
  and one whose year (counted from 1900) does not fit 32 bits is refused by \<^verbatim>\<open>localtime\<close>.
\<close>

definition fromtimestamp :: "int \<Rightarrow> int attr" where
  "fromtimestamp t =
     (if - 62135510400 \<le> t \<and> t \<le> 253402300799 then Inr t
      else if t < - 9223372036854775808 \<or> 9223372036854775807 < t
      then Inl (ascii ''timestamp out of range for platform time_t'')
      else if dt_year t - 1900 < - 2147483648 \<or> 2147483647 < dt_year t - 1900
      then Inl (ascii ''[Errno 75] Value too large for defined data type'')
      else Inl (ascii ''year '' @
                str_int (if - 62135596800 \<le> t \<and> t \<le> 253402300799
                         then dt_year (t - 86400) else dt_year t) @
                ascii '' is out of range''))"

text \<open>
  The body of the \<^verbatim>\<open>try\<close> block of \<^verbatim>\<open>extract_commit_data\<close>: the fields are read in the
  order of the dictionary display, and the first access that raises decides the exception.
\<close>

definition build_commit_info :: "raw_commit \<Rightarrow> commit_info attr" where
  "build_commit_info c =
     (case hexsha c of Inl e \<Rightarrow> Inl e | Inr h \<Rightarrow>
      case author c of Inl e \<Rightarrow> Inl e | Inr a \<Rightarrow>
      case committed_date c of Inl e \<Rightarrow> Inl e | Inr d \<Rightarrow>
      case fromtimestamp d of Inl e \<Rightarrow> Inl e | Inr t \<Rightarrow>
      case message c of Inl e \<Rightarrow> Inl e | Inr m \<Rightarrow>
      case stats c of Inl e \<Rightarrow> Inl e | Inr st \<Rightarrow>
        Inr \<lparr>commit_hash = take 8 h,
             author_name = actor_name a,
             author_email = actor_email a,
             commit_time = t,
             commit_message = strip m,
             insertions = total_insertions st,
             deletions = total_deletions st\<rparr>)"

text \<open>
  The line printed by the \<^verbatim>\<open>except\<close> branch: a fixed prefix, the short hash, a full-width
  colon and the first 50 code points of the exception text.
\<close>

definition skip_line :: "pystr \<Rightarrow> pystr \<Rightarrow> pystr" where
  "skip_line h msg =
     [36339, 36807, 24322, 24120, 25552, 20132] @ take 8 h @ [65306] @ take 50 msg"

text \<open>
  The \<^verbatim>\<open>for\<close> loop of \<^verbatim>\<open>extract_commit_data\<close>, threading \<^verbatim>\<open>commit_data\<close> and the console.
  The \<^verbatim>\<open>except\<close> branch reads \<^verbatim>\<open>commit.hexsha\<close> again; when that access raises, the exception
  leaves the loop.  The pause every 20 commits changes no state and is left out.  The
  result holds the exception that left the loop, if any, with the list and the console as
  they are at that moment.
\<close>

fun walk :: "raw_commit list \<Rightarrow> commit_info list \<Rightarrow> pystr list \<Rightarrow>
    error option \<times> commit_info list \<times> pystr list" where
  "walk [] commit_data out = (None, commit_data, out)"
| "walk (c # cs) commit_data out =
     (case build_commit_info c of
        Inr info \<Rightarrow> walk cs (commit_data @ [info]) out
      | Inl msg \<Rightarrow>
          (case hexsha c of
             Inl e \<Rightarrow> (Some (Exception e), commit_data, out)
           | Inr h \<Rightarrow> walk cs commit_data (out @ [skip_line h msg])))"

text \<open>
  A pandas data frame over commit records.  \<open>df_columns\<close> are the labels taken from the
  dictionaries' keys (none when the frame is built from an empty list), \<open>df_index\<close> the
  row labels, \<open>df_rows\<close> the rows in their current order, and \<open>df_extra\<close> the columns added
  later by assignment, each with its label and its values in row order.
\<close>

record dataframe =
  df_columns :: "pystr list"
  df_index :: "nat list"
  df_rows :: "commit_info list"
  df_extra :: "(pystr \<times> int list) list"

definition commit_info_keys :: "pystr list" where
  "commit_info_keys =
     [ascii ''commit_hash'', ascii ''author_name'', ascii ''author_email'',
      ascii ''commit_time'', ascii ''commit_message'', ascii ''insertions'',
      ascii ''deletions'']"

definition columns :: "dataframe \<Rightarrow> pystr list" where
  "columns df = df_columns df @ map fst (df_extra df)"

definition DataFrame :: "commit_info list \<Rightarrow> dataframe" where
  "DataFrame commit_data =
     \<lparr>df_columns = (if commit_data = [] then [] else commit_info_keys),
      df_index = [0..<length commit_data],
      df_rows = commit_data,
      df_extra = []\<rparr>"

text \<open>
  \<^verbatim>\<open>sort_values("commit_time")\<close>: a missing label raises \<^verbatim>\<open>KeyError\<close>; otherwise the
  positions are sorted by the key and rows, index and added columns are taken in that
  order.  Rows with equal keys keep their order here; no statement below depends on the
  order of such rows.
\<close>

definition argsort :: "commit_info list \<Rightarrow> nat list" where
  "argsort rs = sort_key (\<lambda>i. commit_time (rs ! i)) [0..<length rs]"

definition take_rows :: "nat list \<Rightarrow> dataframe \<Rightarrow> dataframe" where
  "take_rows order df =
     df\<lparr>df_index := map (\<lambda>i. df_index df ! i) order,
        df_rows := map (\<lambda>i. df_rows df ! i) order,
        df_extra := map (\<lambda>(l, vs). (l, map (\<lambda>i. vs ! i) order)) (df_extra df)\<rparr>"

definition sort_values_commit_time :: "dataframe \<Rightarrow> error + dataframe" where
  "sort_values_commit_time df =
     (if ascii ''commit_time'' \<in> set (columns df)
      then Inr (take_rows (argsort (df_rows df)) df)
      else Inl (KeyError (ascii ''commit_time'')))"

definition reset_index_drop :: "dataframe \<Rightarrow> dataframe" where
  "reset_index_drop df = df\<lparr>df_index := [0..<length (df_rows df)]\<rparr>"

section \<open>The analyzer object and its environment\<close>

text \<open>
  What \<^verbatim>\<open>str.replace(old, new)\<close> computes: every occurrence of \<open>old\<close>, found from the left
  and not overlapping, becomes \<open>new\<close>; an empty \<open>old\<close> matches before every code point and
  at the end.
\<close>

function replace_from :: "pystr \<Rightarrow> pystr \<Rightarrow> pystr \<Rightarrow> pystr" where
  "replace_from old new [] = []"
| "replace_from old new (x # xs) =
     (if old \<noteq> [] \<and> take (length old) (x # xs) = old
      then new @ replace_from old new (drop (length old) (x # xs))
      else x # replace_from old new xs)"
  by pat_completeness auto
termination
  by (relation "measure (\<lambda>(old, new, s). length s)") auto

definition replace :: "pystr \<Rightarrow> pystr \<Rightarrow> pystr \<Rightarrow> pystr" where
  "replace s old new =
     (if old = [] then new @ concat (map (\<lambda>c. c # new) s) else replace_from old new s)"

text \<open>
  What exists at a local path: a repository that \<^verbatim>\<open>git.Repo\<close> can open, or anything else.
\<close>

datatype fsnode = Repository git_repo | NotARepository

text \<open>
  The files written under \<^verbatim>\<open>data\<close>: the table, and the four kinds of chart with the data
  they draw.  A line chart carries its title.
\<close>

datatype artifact =
    Csv dataframe
  | BarhChart "(pystr \<times> nat) list"
  | LineChart pystr "(int \<times> nat) list"
  | StackedBarChart "(int \<times> int \<times> int \<times> int) list"
  | WordCloudImage pystr

text \<open>
  The fields of \<^verbatim>\<open>GitHubCommitAnalyzer\<close> (\<open>None\<close> is Python's \<^verbatim>\<open>None\<close>), followed by the
  environment the methods act on: the access token read at import, the absolute-path
  function of the process, the local file system, what can be fetched from each address, the
  addresses passed to \<^verbatim>\<open>clone_from\<close> so far, the directories registered as safe, whether the
  \<^verbatim>\<open>git config\<close> command works, the files written, and the console.  Of the console only the
  lines about skipped commits are recorded.  Writing a file and drawing a chart are taken
  to succeed.
\<close>

record state =
  repo_url :: pystr
  local_repo_path :: pystr
  repo :: "git_repo option"
  commits_df :: "dataframe option"
  GITHUB_TOKEN :: pystr
  abspath :: "pystr \<Rightarrow> pystr"
  local_paths :: "pystr \<Rightarrow> fsnode option"
  remotes :: "pystr \<Rightarrow> git_repo option"
  clone_calls :: "pystr list"
  safe_directories :: "pystr list"
  git_config_works :: bool
  files :: "pystr \<Rightarrow> artifact option"
  console :: "pystr list"

text \<open>
  A method returns the exception that left it, or \<open>None\<close> when it returned, and the state
  at that moment.
\<close>

type_synonym outcome = "error option \<times> state"

definition fix_git_ownership :: "pystr \<Rightarrow> state \<Rightarrow> state" where
  "fix_git_ownership repo_path s =
     (let p = replace repo_path [92] [47]
      in if git_config_works s then s\<lparr>safe_directories := safe_directories s @ [p]\<rparr> else s)"

definition clone_from :: "pystr \<Rightarrow> pystr \<Rightarrow> state \<Rightarrow> outcome" where
  "clone_from url to_path s =
     (let s1 = s\<lparr>clone_calls := clone_calls s @ [url]\<rparr>
      in case remotes s url of
           None \<Rightarrow> (Some (GitCommandError (ascii ''clone'')), s1)
         | Some r \<Rightarrow>
             (None, s1\<lparr>local_paths := (local_paths s)(to_path \<mapsto> Repository r),
                        repo := Some r\<rparr>))"

definition Repo :: "pystr \<Rightarrow> state \<Rightarrow> outcome" where
  "Repo path s =
     (case local_paths s path of
        Some (Repository r) \<Rightarrow> (None, s\<lparr>repo := Some r\<rparr>)
      | _ \<Rightarrow> (Some (InvalidGitRepositoryError path), s))"

definition clone_repo :: "state \<Rightarrow> outcome" where
  "clone_repo s0 =
     (let s = fix_git_ownership (abspath s0 (local_repo_path s0)) s0
      in if local_paths s (local_repo_path s) = None
         then if GITHUB_TOKEN s \<noteq> []
              then clone_from
                     (replace (repo_url s) (ascii ''https://'')
                        (ascii ''https://'' @ GITHUB_TOKEN s @ ascii ''@''))
                     (local_repo_path s) s
              else clone_from (repo_url s) (local_repo_path s) s
         else Repo (local_repo_path s) s)"

definition extract_commit_data :: "state \<Rightarrow> outcome" where
  "extract_commit_data s =
     (case repo s of
        None \<Rightarrow> (Some (AttributeError (ascii ''iter_commits'')), s)
      | Some r \<Rightarrow>
     (case iter_commits r 800 of
        Inl e \<Rightarrow> (Some e, s)
      | Inr commits \<Rightarrow>
     (case walk commits [] (console s) of
        (Some e, commit_data, out) \<Rightarrow> (Some e, s\<lparr>console := out\<rparr>)
      | (None, commit_data, out) \<Rightarrow>
          (let s1 = s\<lparr>console := out, commits_df := Some (DataFrame commit_data)\<rparr>
           in case sort_values_commit_time (DataFrame commit_data) of
                Inl e \<Rightarrow> (Some e, s1)
              | Inr sorted_df \<Rightarrow>
                  (let df = reset_index_drop sorted_df;
                       s2 = s1\<lparr>commits_df := Some df\<rparr>
                   in (None,
                       s2\<lparr>files := (files s2)(ascii ''data/commit_history.csv'' \<mapsto> Csv df)\<rparr>))))))"

section \<open>Library operations used by the reports\<close>

text \<open>
  The period a timestamp falls in, as a number: days since the epoch for \<^verbatim>\<open>"D"\<close>, weeks
  from Monday to Sunday for \<^verbatim>\<open>"W"\<close> (the default anchor is Sunday, and week 0 ends on
  1970-01-04), calendar months since year 0 for \<^verbatim>\<open>"ME"\<close>.
\<close>

definition day_bucket :: "int \<Rightarrow> int" where
  "day_bucket t = t div 86400"

definition week_bucket :: "int \<Rightarrow> int" where
  "week_bucket t = (t div 86400 + 3) div 7"

definition month_bucket :: "int \<Rightarrow> int" where
  "month_bucket t = (case civil_from_days (t div 86400) of (y, m, d) \<Rightarrow> 12 * y + (m - 1))"

text \<open>
  The parts of the libraries that the source leaves to its environment: which other
  frequency strings pandas accepts and how each divides time, the tokenizer
  \<^verbatim>\<open>jieba.lcut\<close>, what \<^verbatim>\<open>str.lower\<close> makes of a code point outside ASCII (given the string and
  the position), the exception \<^verbatim>\<open>WordCloud.generate\<close> raises on a text, if any, and the
  positions that \<^verbatim>\<open>numpy\<close>'s \<^verbatim>\<open>argsort(kind="quicksort")\<close> returns for an array of more than 17
  integers, which it partitions.
\<close>

record library =
  other_offsets :: "pystr \<Rightarrow> (int \<Rightarrow> int) option"
  lcut :: "pystr \<Rightarrow> pystr list"
  lower_nonascii :: "pystr \<Rightarrow> nat \<Rightarrow> pystr"
  wordcloud_generate :: "pystr \<Rightarrow> error option"
  partitioning_argsort :: "int list \<Rightarrow> nat list"

definition to_offset :: "library \<Rightarrow> pystr \<Rightarrow> (int \<Rightarrow> int) option" where
  "to_offset L freq =
     (if freq = ascii ''ME'' then Some month_bucket
      else if freq = ascii ''W'' then Some week_bucket
      else if freq = ascii ''D'' then Some day_bucket
      else other_offsets L freq)"

text \<open>
  \<^verbatim>\<open>groupby(pd.Grouper(key, freq)).size()\<close>: the bins run from the period of the earliest
  timestamp to the period of the latest one, and the sorted values are walked once, each
  bin taking the values that fall in it.
\<close>

function bins :: "int \<Rightarrow> int \<Rightarrow> int list \<Rightarrow> (int \<times> nat) list" where
  "bins b hi ks =
     (if hi < b then []
      else (b, length (takeWhile (\<lambda>k. k = b) ks)) #
           bins (b + 1) hi (dropWhile (\<lambda>k. k = b) ks))"
  by pat_completeness auto
termination
  by (relation "measure (\<lambda>(b, hi, ks). nat (hi + 1 - b))") auto

declare bins.simps [simp del]

definition grouper_size :: "(int \<Rightarrow> int) \<Rightarrow> int list \<Rightarrow> (int \<times> nat) list" where
  "grouper_size bucket ts =
     (if ts = [] then []
      else bins (bucket (Min (set ts))) (bucket (Max (set ts))) (map bucket (sort ts)))"

text \<open>
  \<^verbatim>\<open>value_counts()\<close>: the values are counted in a table that keeps them in the order of their
  first appearance, and the table is sorted by \<^verbatim>\<open>sort_values(ascending=False)\<close>, whose sorting
  algorithm is \<^verbatim>\<open>"quicksort"\<close>.  For a descending sort \<^verbatim>\<open>nargsort\<close> reverses the counts, takes
  their \<^verbatim>\<open>argsort\<close>, maps the positions back and reverses the result.  The \<^verbatim>\<open>argsort\<close> of up
  to 17 counts is an insertion sort, which keeps equal counts in their order; a longer array
  is partitioned.  \<^verbatim>\<open>head(n)\<close> keeps the first \<open>n\<close> entries.
\<close>

fun count_value :: "pystr \<Rightarrow> (pystr \<times> nat) list \<Rightarrow> (pystr \<times> nat) list" where
  "count_value v [] = [(v, 1)]"
| "count_value v ((k, n) # kvs) =
     (if k = v then (k, n + 1) # kvs else (k, n) # count_value v kvs)"

definition count_table :: "pystr list \<Rightarrow> (pystr \<times> nat) list" where
  "count_table vs = foldl (\<lambda>kvs v. count_value v kvs) [] vs"

definition argsort_quicksort :: "library \<Rightarrow> int list \<Rightarrow> nat list" where
  "argsort_quicksort L v =
     (if length v \<le> 17 then sort_key (\<lambda>i. v ! i) [0..<length v] else partitioning_argsort L v)"

definition nargsort_descending :: "library \<Rightarrow> int list \<Rightarrow> nat list" where
  "nargsort_descending L items =
     (let non_nans = rev items;
          non_nan_idx = rev [0..<length items];
          indexer = map (\<lambda>i. non_nan_idx ! i) (argsort_quicksort L non_nans)
      in rev indexer)"

definition value_counts :: "library \<Rightarrow> pystr list \<Rightarrow> (pystr \<times> nat) list" where
  "value_counts L vs =
     (let result = count_table vs;
          sorted_index = nargsort_descending L (map (\<lambda>(k, n). int n) result)
      in map (\<lambda>i. result ! i) sorted_index)"

definition head :: "nat \<Rightarrow> 'a list \<Rightarrow> 'a list" where
  "head n xs = take n xs"

text \<open>
  The columns \<^verbatim>\<open>insertions\<close> and \<^verbatim>\<open>deletions\<close> of the frame hold 64-bit integers, the counts
  of the rows being in that range.  What a sum or a difference of such values comes to is
  kept modulo \<open>2\<^sup>6\<^sup>4\<close>, between \<open>- 2\<^sup>6\<^sup>3\<close> and \<open>2\<^sup>6\<^sup>3 - 1\<close>.
\<close>

definition int64 :: "int \<Rightarrow> int" where
  "int64 x = (x + 9223372036854775808) mod 18446744073709551616 - 9223372036854775808"

text \<open>
  \<^verbatim>\<open>groupby(key).agg({"insertions": "sum", "deletions": "sum"})\<close>: one row for each key,
  keys ascending, each row holding the two sums of its group, added up in 64 bits.
\<close>

fun group_add :: "int \<Rightarrow> int \<Rightarrow> int \<Rightarrow> (int \<times> int \<times> int) list \<Rightarrow> (int \<times> int \<times> int) list" where
  "group_add y i d [] = [(y, int64 i, int64 d)]"
| "group_add y i d ((y', i', d') # gs) =
     (if y = y' then (y', int64 (i' + i), int64 (d' + d)) # gs
      else if y < y' then (y, int64 i, int64 d) # (y', i', d') # gs
      else (y', i', d') # group_add y i d gs)"

definition groupby_sum :: "int list \<Rightarrow> commit_info list \<Rightarrow> (int \<times> int \<times> int) list" where
  "groupby_sum keys rs =
     foldl (\<lambda>gs (y, r). group_add y (insertions r) (deletions r) gs) [] (zip keys rs)"

text \<open>
  \<^verbatim>\<open>df[label] = values\<close> for a label that is not one of the dictionary keys: the column is
  replaced where it exists and appended otherwise.
\<close>

fun setitem :: "(pystr \<times> int list) list \<Rightarrow> pystr \<Rightarrow> int list \<Rightarrow> (pystr \<times> int list) list" where
  "setitem [] l vs = [(l, vs)]"
| "setitem ((k, ws) # cs) l vs =
     (if k = l then (k, vs) # cs else (k, ws) # setitem cs l vs)"

definition set_column :: "dataframe \<Rightarrow> pystr \<Rightarrow> int list \<Rightarrow> dataframe" where
  "set_column df l vs = df\<lparr>df_extra := setitem (df_extra df) l vs\<rparr>"

text \<open>\<^verbatim>\<open>sep.join(parts)\<close> and \<^verbatim>\<open>str.lower()\<close>.\<close>

fun join :: "pystr \<Rightarrow> pystr list \<Rightarrow> pystr" where
  "join sep [] = []"
| "join sep [x] = x"
| "join sep (x # y # ys) = x @ sep @ join sep (y # ys)"

definition lower :: "library \<Rightarrow> pystr \<Rightarrow> pystr" where
  "lower L s =
     concat (map (\<lambda>i. let c = s ! i
                       in if 65 \<le> c \<and> c \<le> 90 then [c + 32]
                          else if c < 128 then [c]
                          else lower_nonascii L s i)
                 [0..<length s])"

section \<open>The four reports\<close>

text \<open>
  Each report reads \<^verbatim>\<open>self.commits_df\<close> (subscripting \<^verbatim>\<open>None\<close> raises \<^verbatim>\<open>TypeError\<close>, a missing
  column \<^verbatim>\<open>KeyError\<close>), computes its summary and saves one image.  The sums of line counts
  are integers, so \<^verbatim>\<open>round(2)\<close> changes nothing, and messages are strings, so \<^verbatim>\<open>dropna()\<close>
  removes nothing.
\<close>

definition analyze_contributor_distribution :: "library \<Rightarrow> state \<Rightarrow> outcome" where
  "analyze_contributor_distribution L s =
     (case commits_df s of
        None \<Rightarrow> (Some (TypeError (ascii ''author_name'')), s)
      | Some df \<Rightarrow>
          if ascii ''author_name'' \<notin> set (columns df)
          then (Some (KeyError (ascii ''author_name'')), s)
          else
            (let contributor_stats = head 10 (value_counts L (map author_name (df_rows df)))
             in (None,
                 s\<lparr>files := (files s)(ascii ''data/contributor_top10.png'' \<mapsto>
                                 BarhChart contributor_stats)\<rparr>)))"

text \<open>The lookup table of \<^verbatim>\<open>analyze_commit_trend\<close> and the title built from its entry.\<close>

definition freq_label :: "pystr \<Rightarrow> pystr option" where
  "freq_label = map_of [(ascii ''ME'', [26376]), (ascii ''W'', [21608]), (ascii ''D'', [26085])]"

definition trend_title :: "pystr \<Rightarrow> pystr" where
  "trend_title l =
     [25552, 20132, 39057, 29575, 36235, 21183, 65288, 25353] @ l @ [32479, 35745, 65289]"

definition analyze_commit_trend :: "library \<Rightarrow> pystr \<Rightarrow> state \<Rightarrow> outcome" where
  "analyze_commit_trend L freq s =
     (case commits_df s of
        None \<Rightarrow> (Some (TypeError (ascii ''commit_time'')), s)
      | Some df \<Rightarrow>
          if ascii ''commit_time'' \<notin> set (columns df)
          then (Some (KeyError (ascii ''commit_time'')), s)
          else
            (let df1 = set_column df (ascii ''commit_date'')
                         (map (\<lambda>r. dt_date (commit_time r)) (df_rows df));
                 s1 = s\<lparr>commits_df := Some df1\<rparr>
             in case to_offset L freq of
                  None \<Rightarrow> (Some (ValueError (ascii ''Invalid frequency: '' @ freq)), s1)
                | Some bucket \<Rightarrow>
                    (let commit_trend = grouper_size bucket (map commit_time (df_rows df1))
                     in case freq_label freq of
                          None \<Rightarrow> (Some (KeyError freq), s1)
                        | Some l \<Rightarrow>
                            (None,
                             s1\<lparr>files := (files s1)
                                   (ascii ''data/commit_trend_'' @ freq @ ascii ''.png'' \<mapsto>
                                      LineChart (trend_title l) commit_trend)\<rparr>))))"

definition code_churn_of :: "int list \<Rightarrow> commit_info list \<Rightarrow> (int \<times> int \<times> int \<times> int) list" where
  "code_churn_of years rs = map (\<lambda>(y, i, d). (y, i, d, int64 (i - d))) (groupby_sum years rs)"

definition analyze_code_churn :: "state \<Rightarrow> outcome" where
  "analyze_code_churn s =
     (case commits_df s of
        None \<Rightarrow> (Some (TypeError (ascii ''commit_time'')), s)
      | Some df \<Rightarrow>
          if ascii ''commit_time'' \<notin> set (columns df)
          then (Some (KeyError (ascii ''commit_time'')), s)
          else
            (let years = map (\<lambda>r. dt_year (commit_time r)) (df_rows df);
                 df1 = set_column df (ascii ''commit_year'') years;
                 s1 = s\<lparr>commits_df := Some df1\<rparr>;
                 code_churn = code_churn_of years (df_rows df1)
             in (None,
                 s1\<lparr>files := (files s1)(ascii ''data/code_churn_year.png'' \<mapsto>
                                  StackedBarChart code_churn)\<rparr>)))"

definition stop_words :: "pystr list" where
  "stop_words = map ascii
     [''the'', ''a'', ''an'', ''and'', ''or'', ''to'', ''in'', ''for'', ''of'', ''with'', ''on'',
      ''at'', ''by'', ''is'', ''are'', ''was'', ''were'', ''I'', ''we'', ''this'', ''that'', ''it'',
      ''fix'', ''fixed'', ''update'', ''add'', ''remove'', ''clean'', ''up'']"

definition filtered_words :: "library \<Rightarrow> pystr list \<Rightarrow> pystr list" where
  "filtered_words L words =
     [word \<leftarrow> words. 2 \<le> length word \<and> lower L word \<notin> set stop_words]"

definition generate_commit_message_wordcloud :: "library \<Rightarrow> state \<Rightarrow> outcome" where
  "generate_commit_message_wordcloud L s =
     (case commits_df s of
        None \<Rightarrow> (Some (TypeError (ascii ''commit_message'')), s)
      | Some df \<Rightarrow>
          if ascii ''commit_message'' \<notin> set (columns df)
          then (Some (KeyError (ascii ''commit_message'')), s)
          else
            (let all_messages = join [32] (map commit_message (df_rows df));
                 words = lcut L all_messages;
                 word_text = join [32] (filtered_words L words)
             in case wordcloud_generate L word_text of
                  Some e \<Rightarrow> (Some e, s)
                | None \<Rightarrow>
                    (None,
                     s\<lparr>files := (files s)(ascii ''data/commit_message_wordcloud.png'' \<mapsto>
                                     WordCloudImage word_text)\<rparr>)))"

text \<open>Sequencing as in \<^verbatim>\<open>run_full_analysis\<close>: an exception ends the run.\<close>

definition and_then :: "outcome \<Rightarrow> (state \<Rightarrow> outcome) \<Rightarrow> outcome" where
  "and_then r f = (case r of (None, s) \<Rightarrow> f s | (Some e, s) \<Rightarrow> (Some e, s))"

definition run_full_analysis :: "library \<Rightarrow> state \<Rightarrow> outcome" where
  "run_full_analysis L s =
     and_then (and_then (and_then (and_then (and_then (and_then
       (clone_repo s)
       extract_commit_data)
       (analyze_contributor_distribution L))
       (analyze_commit_trend L (ascii ''ME'')))
       (analyze_commit_trend L (ascii ''W'')))
       analyze_code_churn)
       (generate_commit_message_wordcloud L)"

section \<open>Notions used in the statements\<close>

text \<open>The records that the loop of \<^verbatim>\<open>extract_commit_data\<close> can build from a walk.\<close>

definition built :: "raw_commit list \<Rightarrow> commit_info list" where
  "built cs =
     concat (map (\<lambda>c. case build_commit_info c of Inr info \<Rightarrow> [info] | Inl _ \<Rightarrow> []) cs)"





text \<open>
  The rows of a list of keyed rows grouped as \<^verbatim>\<open>groupby\<close> does, and the two sums of the rows
  with a given key.
\<close>

definition groups_of :: "(int \<times> commit_info) list \<Rightarrow> (int \<times> int \<times> int) list" where
  "groups_of ps = foldl (\<lambda>gs (y, r). group_add y (insertions r) (deletions r) gs) [] ps"

definition group_total :: "int \<Rightarrow> (int \<times> commit_info) list \<Rightarrow> int \<times> int" where
  "group_total y ps =
     (sum_list (map (insertions \<circ> snd) (filter (\<lambda>p. fst p = y) ps)),
      sum_list (map (deletions \<circ> snd) (filter (\<lambda>p. fst p = y) ps)))"

text \<open>
  Two strings that differ at most in the case of ASCII letters.
\<close>

definition ascii_lower :: "nat \<Rightarrow> nat" where
  "ascii_lower c = (if 65 \<le> c \<and> c \<le> 90 then c + 32 else c)"

definition same_ignoring_case :: "pystr \<Rightarrow> pystr \<Rightarrow> bool" where
  "same_ignoring_case w sw \<longleftrightarrow> map ascii_lower w = map ascii_lower sw"

text \<open>
  Two values of \<^verbatim>\<open>commits_df\<close> that agree in the columns built from the dictionaries, the
  index, the rows, and every added column other than the one labelled \<open>l\<close>.
\<close>

definition same_but :: "pystr \<Rightarrow> dataframe option \<Rightarrow> dataframe option \<Rightarrow> bool" where
  "same_but l t t' \<longleftrightarrow>
     map_option df_columns t' = map_option df_columns t \<and>
     map_option df_index t' = map_option df_index t \<and>
     map_option df_rows t' = map_option df_rows t \<and>
     map_option (\<lambda>df. filter (\<lambda>c. fst c \<noteq> l) (df_extra df)) t' =
       map_option (\<lambda>df. filter (\<lambda>c. fst c \<noteq> l) (df_extra df)) t"

text \<open>
  The address \<^verbatim>\<open>clone_repo\<close> passes to \<^verbatim>\<open>clone_from\<close>, and the occurrence of one string in
  another.
\<close>

definition fetch_address :: "state \<Rightarrow> pystr" where
  "fetch_address s =
     (if GITHUB_TOKEN s \<noteq> []
      then replace (repo_url s) (ascii ''https://'')
             (ascii ''https://'' @ GITHUB_TOKEN s @ ascii ''@'')
      else repo_url s)"

definition occurs_in :: "pystr \<Rightarrow> pystr \<Rightarrow> bool" where
  "occurs_in old s \<longleftrightarrow> (\<exists>i \<in> {0..length s}. take (length old) (drop i s) = old)"

text \<open>
  The number of the month of a day counted from 1 March of year 0, level by level: within a
  year, within four years, within a century, within 400 years, and overall.
\<close>

definition month_in_year :: "int \<Rightarrow> int" where
  "month_in_year doy = (5 * doy + 2) div 153"

definition month_in_quad :: "int \<Rightarrow> int" where
  "month_in_quad dq = 12 * min 3 (dq div 365) + month_in_year (dq - 365 * min 3 (dq div 365))"

definition month_in_century :: "int \<Rightarrow> int" where
  "month_in_century dc = 48 * (dc div 1461) + month_in_quad (dc mod 1461)"

definition month_in_era :: "int \<Rightarrow> int" where
  "month_in_era doe =
     1200 * min 3 (doe div 36524) + month_in_century (doe - 36524 * min 3 (doe div 36524))"

definition month_rank :: "int \<Rightarrow> int" where
  "month_rank z = 4800 * (z div 146097) + month_in_era (z mod 146097)"

section \<open>Example inputs\<close>

definition commit_at :: "string \<Rightarrow> int \<Rightarrow> int \<Rightarrow> int \<Rightarrow> raw_commit" where
  "commit_at a t i d =
     \<lparr>hexsha = Inr (ascii ''0123456789abcdef''),
      author = Inr \<lparr>actor_name = ascii a, actor_email = ascii ''dev@example.org''\<rparr>,
      committed_date = Inr t,
      message = Inr (ascii '' fix login bug ''),
      stats = Inr \<lparr>total_insertions = i, total_deletions = d\<rparr>\<rparr>"

definition unreadable_stats :: "raw_commit \<Rightarrow> raw_commit" where
  "unreadable_stats c = c\<lparr>stats := Inl (ascii ''bad object'')\<rparr>"

definition analyzer_on :: "git_repo option \<Rightarrow> state" where
  "analyzer_on r =
     \<lparr>repo_url = ascii ''https://github.com/psf/requests.git'',
      local_repo_path = ascii ''./temp_repo'',
      repo = r,
      commits_df = None,
      GITHUB_TOKEN = [],
      abspath = (\<lambda>p. ascii ''/work/'' @ p),
      local_paths = Map.empty,
      remotes = Map.empty,
      clone_calls = [],
      safe_directories = [],
      git_config_works = True,
      files = Map.empty,
      console = []\<rparr>"

definition row :: "string \<Rightarrow> int \<Rightarrow> int \<Rightarrow> int \<Rightarrow> commit_info" where
  "row a t i d =
     \<lparr>commit_hash = ascii ''01234567'',
      author_name = ascii a,
      author_email = ascii ''dev@example.org'',
      commit_time = t,
      commit_message = ascii ''fix login bug'',
      insertions = i,
      deletions = d\<rparr>"

definition holding :: "commit_info list \<Rightarrow> state" where
  "holding rs = (analyzer_on None)\<lparr>commits_df := Some (DataFrame rs)\<rparr>"


text \<open>
  A library for the examples: it accepts the frequency \<^verbatim>\<open>"Q"\<close> besides the three of the
  lookup table, cuts a text at spaces (keeping each space as a token, as \<^verbatim>\<open>jieba\<close> does),
  leaves code points outside ASCII unchanged, refuses to draw an empty text, and sorts a long
  array as it sorts a short one.
\<close>

fun cut_at_spaces :: "pystr \<Rightarrow> pystr \<Rightarrow> pystr list" where
  "cut_at_spaces acc [] = (if acc = [] then [] else [acc])"
| "cut_at_spaces acc (c # cs) =
     (if c = 32 then (if acc = [] then [] else [acc]) @ [[32]] @ cut_at_spaces [] cs
      else cut_at_spaces (acc @ [c]) cs)"

definition example_library :: library where
  "example_library =
     \<lparr>other_offsets = (\<lambda>f. if f = ascii ''Q'' then Some (\<lambda>t. t div 7889400) else None),
      lcut = cut_at_spaces [],
      lower_nonascii = (\<lambda>s i. [s ! i]),
      wordcloud_generate =
        (\<lambda>t. if t = [] then Some (ValueError (ascii ''We need at least 1 word'')) else None),
      partitioning_argsort = (\<lambda>v. sort_key (\<lambda>i. v ! i) [0..<length v])\<rparr>"









fun shift_up :: "int list \<Rightarrow> nat \<Rightarrow> nat \<Rightarrow> nat list \<Rightarrow> nat \<Rightarrow> nat list" where
  "shift_up v vi pl a pj =
     (if pl < pj \<and> v ! vi < v ! (a ! (pj - 1))
      then shift_up v vi pl (a[pj := a ! (pj - 1)]) (pj - 1)
      else a[pj := vi])"

function insertion_sort :: "int list \<Rightarrow> nat list \<Rightarrow> nat \<Rightarrow> nat \<Rightarrow> nat \<Rightarrow> nat list" where
  "insertion_sort v a pl pr pi =
     (if pi \<le> pr then insertion_sort v (shift_up v (a ! pi) pl a pi) pl pr (pi + 1) else a)"
  by pat_completeness auto
termination
  by (relation "measure (\<lambda>(v, a, pl, pr, pi). pr + 1 - pi)") auto

declare shift_up.simps [simp del] insertion_sort.simps [simp del]








definition january_and_march :: "commit_info list" where
  "january_and_march =
     [row ''A'' 1705000000 10 5, row ''B'' 1706000000 20 5, row ''A'' 1709337600 1 7]"

definition one_year :: "commit_info list" where
  "one_year = [row ''A'' 1705000000 10 5, row ''B'' 1706000000 20 5]"

definition wide_year :: "commit_info list" where
  "wide_year = [row ''A'' 1705000000 9223372036854775807 1, row ''B'' 1706000000 1 0]"

definition example_tokens :: "pystr list" where
  "example_tokens =
     map ascii [''fix'', '' '', ''login'', '' '', ''bug'', '' '', ''update'', '' '', ''readme'',
       '' '', ''Fix'', '' '', ''I'', '' '', ''x'', '' '', ''UP'']"

definition one_row :: "commit_info list" where
  "one_row = [row ''A'' 1705000000 10 5]"

definition ssh_reference :: state where
  "ssh_reference =
     (analyzer_on None)\<lparr>repo_url := ascii ''git@github.com:psf/requests.git'',
                        GITHUB_TOKEN := ascii ''tok''\<rparr>"

definition with_token :: state where
  "with_token =
     (analyzer_on None)\<lparr>GITHUB_TOKEN := ascii ''tok'',
        remotes := [ascii ''https://tok@github.com/psf/requests.git'' \<mapsto>
                      Log [commit_at ''A'' 100 1 0]]\<rparr>"

definition already_cloned :: state where
  "already_cloned =
     (analyzer_on None)\<lparr>GITHUB_TOKEN := ascii ''tok'',
        local_paths := [ascii ''./temp_repo'' \<mapsto> Repository (Log [commit_at ''A'' 100 1 0])]\<rparr>"

section \<open>Extraction\<close>

text \<open>
  The first and the last second that \<^verbatim>\<open>datetime.fromtimestamp\<close> accepts, and what it raises
  one second before and after.
\<close>

lemma fromtimestamp_accepts:
  "fromtimestamp (- 62135510400) = Inr (- 62135510400)"
  "fromtimestamp 253402300799 = Inr 253402300799"
  by (simp_all add: fromtimestamp_def)

lemma boundary_years:
  "dt_year (- 62135510401) = 1"
  "dt_year (- 62135596801) = 0"
  "dt_year 253402300800 = 10000"
  by code_simp+

lemma boundary_digits:
  "str_int 0 = ascii ''0''"
  "str_int 10000 = ascii ''10000''"
  by (simp_all add: str_int_def digits.simps ascii_def)

lemma fromtimestamp_raises:
  "fromtimestamp (- 62135510401) = Inl (ascii ''year 0 is out of range'')"
  "fromtimestamp (- 62135596801) = Inl (ascii ''year 0 is out of range'')"
  "fromtimestamp 253402300800 = Inl (ascii ''year 10000 is out of range'')"
  by (simp_all add: fromtimestamp_def boundary_years boundary_digits ascii_def)

lemma walk_returns:
  "walk cs commit_data out = (None, commit_data', out') \<Longrightarrow> commit_data' = commit_data @ built cs"
proof (induction cs arbitrary: commit_data out)
  case Nil
  then show ?case by (simp add: built_def)
next
  case (Cons c cs)
  show ?case
  proof (cases "build_commit_info c")
    case (Inr info)
    with Cons.prems have "walk cs (commit_data @ [info]) out = (None, commit_data', out')"
      by simp
    from Cons.IH [OF this] Inr show ?thesis
      by (simp add: built_def)
  next
    case (Inl msg)
    with Cons.prems obtain h where "hexsha c = Inr h"
      and "walk cs commit_data (out @ [skip_line h msg]) = (None, commit_data', out')"
      by (cases "hexsha c") auto
    from Cons.IH [OF this(2)] Inl show ?thesis
      by (simp add: built_def)
  qed
qed

lemma length_built: "length (built cs) \<le> length cs"
  by (induction cs) (auto simp: built_def split: sum.splits)

lemma sorted_argsort: "sorted (map commit_time (map (\<lambda>i. rs ! i) (argsort rs)))"
  unfolding argsort_def map_map comp_def by (rule sorted_sort_key)

lemma df_rows_DataFrame: "df_rows (DataFrame d) = d"
  by (simp add: DataFrame_def)

lemma length_argsort: "length (argsort rs) = length rs"
  by (simp add: argsort_def)

lemma extract_commit_data_returns:
  assumes "extract_commit_data s = (None, s')"
  obtains cs out where
    "repo s = Some (Log cs)"
    "walk (take 800 cs) [] (console s) = (None, built (take 800 cs), out)"
    "built (take 800 cs) \<noteq> []"
    "s' = s\<lparr>console := out,
            commits_df := Some (reset_index_drop
              (take_rows (argsort (built (take 800 cs))) (DataFrame (built (take 800 cs))))),
            files := (files s)(ascii ''data/commit_history.csv'' \<mapsto>
              Csv (reset_index_drop
                (take_rows (argsort (built (take 800 cs))) (DataFrame (built (take 800 cs))))))\<rparr>"
proof -
  from assms obtain r where r: "repo s = Some r"
    by (cases "repo s") (simp_all add: extract_commit_data_def)
  from assms r obtain cs where cs: "r = Log cs"
    by (cases r) (simp_all add: extract_commit_data_def iter_commits_def)
  obtain e commit_data out where w: "walk (take 800 cs) [] (console s) = (e, commit_data, out)"
    by (cases "walk (take 800 cs) [] (console s)")
  from assms r cs w have e: "e = None"
    by (cases e) (simp_all add: extract_commit_data_def iter_commits_def)
  from walk_returns [OF w [unfolded e]] have d: "commit_data = built (take 800 cs)"
    by simp
  have ne: "commit_data \<noteq> []"
  proof
    assume "commit_data = []"
    with assms r cs w e show False
      by (simp add: extract_commit_data_def iter_commits_def sort_values_commit_time_def
          DataFrame_def columns_def)
  qed
  then have "ascii ''commit_time'' \<in> set (columns (DataFrame commit_data))"
    by (simp add: DataFrame_def columns_def commit_info_keys_def)
  with assms r cs w e have "s' = s\<lparr>console := out,
            commits_df := Some (reset_index_drop
              (take_rows (argsort commit_data) (DataFrame commit_data))),
            files := (files s)(ascii ''data/commit_history.csv'' \<mapsto>
              Csv (reset_index_drop
                (take_rows (argsort commit_data) (DataFrame commit_data))))\<rparr>"
    by (simp add: extract_commit_data_def iter_commits_def sort_values_commit_time_def Let_def
        df_rows_DataFrame)
  with r cs w e d ne show thesis
    using that by simp
qed

text \<open>
  C6.  Whenever \<^verbatim>\<open>extract_commit_data\<close> returns, the table it leaves in \<^verbatim>\<open>commits_df\<close> has at
  most 800 rows (the walk count of the source), its rows are in non-decreasing order of
  \<^verbatim>\<open>commit_time\<close>, and its index is \<open>0, 1, \<dots>\<close> up to the number of rows.
\<close>

theorem extracted_table_bounded_sorted_reindexed:
  assumes "fst (extract_commit_data s) = None"
  shows "\<exists>df. commits_df (snd (extract_commit_data s)) = Some df \<and>
     length (df_rows df) \<le> 800 \<and>
     sorted (map commit_time (df_rows df)) \<and>
     df_index df = [0..<length (df_rows df)]"
proof -
  from assms have "extract_commit_data s = (None, snd (extract_commit_data s))"
    by (simp add: prod_eq_iff)
  then obtain cs out where
    s': "snd (extract_commit_data s) = s\<lparr>console := out,
            commits_df := Some (reset_index_drop
              (take_rows (argsort (built (take 800 cs))) (DataFrame (built (take 800 cs))))),
            files := (files s)(ascii ''data/commit_history.csv'' \<mapsto>
              Csv (reset_index_drop
                (take_rows (argsort (built (take 800 cs))) (DataFrame (built (take 800 cs))))))\<rparr>"
    by (rule extract_commit_data_returns)
  let ?d = "built (take 800 cs)"
  let ?df = "reset_index_drop (take_rows (argsort ?d) (DataFrame ?d))"
  have rows: "df_rows ?df = map (\<lambda>i. ?d ! i) (argsort ?d)"
    by (simp add: reset_index_drop_def take_rows_def DataFrame_def)
  have "length ?d \<le> length (take 800 cs)"
    by (rule length_built)
  then have "length (df_rows ?df) \<le> 800"
    by (simp add: rows length_argsort)
  moreover have "sorted (map commit_time (df_rows ?df))"
    unfolding rows by (rule sorted_argsort)
  moreover have "df_index ?df = [0..<length (df_rows ?df)]"
    by (simp add: reset_index_drop_def)
  moreover have "commits_df (snd (extract_commit_data s)) = Some ?df"
    by (simp add: s')
  ultimately show ?thesis
    by blast
qed

lemma extract_commit_data_fails_on_empty:
  assumes "repo s = Some (Log cs)"
    and "walk (take 800 cs) [] (console s) = (None, [], out)"
  shows "extract_commit_data s =
     (Some (KeyError (ascii ''commit_time'')), s\<lparr>console := out, commits_df := Some (DataFrame [])\<rparr>)"
  using assms
  by (simp add: extract_commit_data_def iter_commits_def sort_values_commit_time_def
      DataFrame_def columns_def)

lemma extract_commit_data_succeeds:
  assumes "repo s = Some (Log cs)"
    and "walk (take 800 cs) [] (console s) = (None, d, out)"
    and "d \<noteq> []"
  shows "fst (extract_commit_data s) = None"
proof -
  from assms(3) have "ascii ''commit_time'' \<in> set (columns (DataFrame d))"
    by (simp add: DataFrame_def columns_def commit_info_keys_def)
  with assms(1,2) show ?thesis
    by (simp add: extract_commit_data_def iter_commits_def sort_values_commit_time_def Let_def)
qed

lemma walk_skips_the_middle_commit:
  "walk [commit_at ''B'' 200 1 0, unreadable_stats (commit_at ''A'' 150 2 1), commit_at ''A'' 100 3 1] [] [] =
     (None, [row ''B'' 200 1 0, row ''A'' 100 3 1],
      [skip_line (ascii ''0123456789abcdef'') (ascii ''bad object'')])"
  by (simp add: commit_at_def unreadable_stats_def row_def build_commit_info_def fromtimestamp_def
      strip_def isspace_def ascii_def)

theorem extracted_table_bounded_sorted_reindexed_witness:
  "fst (extract_commit_data (analyzer_on (Some (Log
      [commit_at ''B'' 200 1 0, unreadable_stats (commit_at ''A'' 150 2 1),
       commit_at ''A'' 100 3 1])))) = None \<and>
   (\<exists>df. commits_df (snd (extract_commit_data (analyzer_on (Some (Log
      [commit_at ''B'' 200 1 0, unreadable_stats (commit_at ''A'' 150 2 1),
       commit_at ''A'' 100 3 1]))))) = Some df \<and>
     length (df_rows df) \<le> 800 \<and>
     sorted (map commit_time (df_rows df)) \<and>
     df_index df = [0..<length (df_rows df)])"
proof -
  let ?s = "analyzer_on (Some (Log
      [commit_at ''B'' 200 1 0, unreadable_stats (commit_at ''A'' 150 2 1),
       commit_at ''A'' 100 3 1]))"
  have r: "repo ?s = Some (Log
      [commit_at ''B'' 200 1 0, unreadable_stats (commit_at ''A'' 150 2 1),
       commit_at ''A'' 100 3 1])"
    by (simp add: analyzer_on_def)
  have w: "walk (take 800 [commit_at ''B'' 200 1 0, unreadable_stats (commit_at ''A'' 150 2 1),
       commit_at ''A'' 100 3 1]) [] (console ?s) =
     (None, [row ''B'' 200 1 0, row ''A'' 100 3 1],
      [skip_line (ascii ''0123456789abcdef'') (ascii ''bad object'')])"
    by (simp add: analyzer_on_def walk_skips_the_middle_commit del: walk.simps)
  have h: "fst (extract_commit_data ?s) = None"
    by (rule extract_commit_data_succeeds [OF r w]) simp
  from extracted_table_bounded_sorted_reindexed [OF h] h show ?thesis
    by simp
qed

text \<open>
  C1.  The claim is that extraction yields a table for every walk the handle yields, also
  for a walk of no commits and for one whose commits are all skipped.  In the source the
  list \<^verbatim>\<open>commit_data\<close> is then empty, \<^verbatim>\<open>pd.DataFrame([])\<close> has no columns, and
  \<^verbatim>\<open>sort_values("commit_time")\<close> raises \<^verbatim>\<open>KeyError\<close>: the method raises on a walk of two
  commits whose statistics cannot be read, and on an empty walk.
\<close>

theorem extraction_raises_when_nothing_is_built:
  "fst (extract_commit_data (analyzer_on (Some (Log
      [unreadable_stats (commit_at ''A'' 200 1 0), unreadable_stats (commit_at ''B'' 100 1 0)])))) =
     Some (KeyError (ascii ''commit_time'')) \<and>
   fst (extract_commit_data (analyzer_on (Some (Log [])))) = Some (KeyError (ascii ''commit_time''))"
proof -
  let ?cs = "[unreadable_stats (commit_at ''A'' 200 1 0), unreadable_stats (commit_at ''B'' 100 1 0)]"
  have r: "repo (analyzer_on (Some (Log cs))) = Some (Log cs)" for cs
    by (simp add: analyzer_on_def)
  have w2: "walk (take 800 ?cs) [] (console (analyzer_on (Some (Log ?cs)))) =
     (None, [], [skip_line (ascii ''0123456789abcdef'') (ascii ''bad object''),
                 skip_line (ascii ''0123456789abcdef'') (ascii ''bad object'')])"
    by (simp add: analyzer_on_def commit_at_def unreadable_stats_def build_commit_info_def
        fromtimestamp_def)
  have w0: "walk (take 800 []) [] (console (analyzer_on (Some (Log [])))) = (None, [], [])"
    by (simp add: analyzer_on_def)
  show ?thesis
    by (simp add: extract_commit_data_fails_on_empty [OF r w2]
        extract_commit_data_fails_on_empty [OF r w0])
qed

text \<open>
  C5.  The claim is that a commit whose record cannot be built is skipped and the walk goes
  on without raising, the table having one row less.  When the dropped commit is the only
  one of the walk, the source prints the diagnostic and skips the commit, and then raises
  \<^verbatim>\<open>KeyError\<close> from \<^verbatim>\<open>sort_values\<close> on the frame without columns, which stays in
  \<^verbatim>\<open>commits_df\<close>.
\<close>

theorem dropping_the_only_commit_raises:
  "extract_commit_data (analyzer_on (Some (Log [unreadable_stats (commit_at ''A'' 100 1 0)]))) =
     (Some (KeyError (ascii ''commit_time'')),
      (analyzer_on (Some (Log [unreadable_stats (commit_at ''A'' 100 1 0)])))
        \<lparr>console := [skip_line (ascii ''0123456789abcdef'') (ascii ''bad object'')],
         commits_df := Some \<lparr>df_columns = [], df_index = [], df_rows = [], df_extra = []\<rparr>\<rparr>)"
proof -
  let ?s = "analyzer_on (Some (Log [unreadable_stats (commit_at ''A'' 100 1 0)]))"
  have r: "repo ?s = Some (Log [unreadable_stats (commit_at ''A'' 100 1 0)])"
    by (simp add: analyzer_on_def)
  have w: "walk (take 800 [unreadable_stats (commit_at ''A'' 100 1 0)]) [] (console ?s) =
     (None, [], [skip_line (ascii ''0123456789abcdef'') (ascii ''bad object'')])"
    by (simp add: analyzer_on_def commit_at_def unreadable_stats_def build_commit_info_def
        fromtimestamp_def)
  show ?thesis
    unfolding extract_commit_data_fails_on_empty [OF r w]
    by (simp add: DataFrame_def)
qed

section \<open>Contributor distribution\<close>




































section \<open>Commit trend\<close>

lemma map_fst_bins: "map fst (bins b hi ks) = [b..hi]"
proof (induction b hi ks rule: bins.induct)
  case (1 b hi ks)
  show ?case
  proof (cases "hi < b")
    case True
    then show ?thesis by (subst bins.simps) simp
  next
    case False
    with "1.IH" show ?thesis
      by (subst bins.simps) (simp add: upto_rec1)
  qed
qed

lemma length_takeWhile_le_count: "length (takeWhile (\<lambda>k. k = b) ks) \<le> count_list ks b"
  by (induction ks) auto

lemma count_list_dropWhile_le: "count_list (dropWhile P ks) k \<le> count_list ks k"
  by (induction ks) auto

lemma bins_count_le: "(k, n) \<in> set (bins b hi ks) \<Longrightarrow> n \<le> count_list ks k"
proof (induction b hi ks rule: bins.induct)
  case (1 b hi ks)
  from "1.prems" have nlt: "\<not> hi < b"
    by (subst (asm) bins.simps) (auto split: if_splits)
  with "1.prems" consider "k = b" "n = length (takeWhile (\<lambda>k. k = b) ks)"
    | "(k, n) \<in> set (bins (b + 1) hi (dropWhile (\<lambda>k. k = b) ks))"
    by (subst (asm) bins.simps) auto
  then show ?case
  proof cases
    case 1
    then show ?thesis by (simp add: length_takeWhile_le_count)
  next
    case 2
    from "1.IH" [OF nlt 2] have "n \<le> count_list (dropWhile (\<lambda>k. k = b) ks) k" .
    also have "\<dots> \<le> count_list ks k" by (rule count_list_dropWhile_le)
    finally show ?thesis .
  qed
qed

lemma length_takeWhile_eq_count:
  "sorted ks \<Longrightarrow> \<forall>k\<in>set ks. b \<le> k \<Longrightarrow> length (takeWhile (\<lambda>k. k = b) ks) = count_list ks b"
  for b :: int
proof (induction ks)
  case Nil
  show ?case by simp
next
  case (Cons x xs)
  show ?case
  proof (cases "x = b")
    case True
    with Cons show ?thesis by simp
  next
    case False
    with Cons.prems have "b \<notin> set (x # xs)" by fastforce
    then have "count_list (x # xs) b = 0" using count_list_0_iff [of "x # xs" b] by blast
    with False show ?thesis by simp
  qed
qed

lemma count_list_dropWhile_other:
  "k \<noteq> b \<Longrightarrow> count_list (dropWhile (\<lambda>k. k = b) ks) k = count_list ks k"
  by (induction ks) auto

lemma dropWhile_above:
  "sorted ks \<Longrightarrow> \<forall>k\<in>set ks. b \<le> k \<Longrightarrow> \<forall>k\<in>set (dropWhile (\<lambda>k. k = b) ks). b + 1 \<le> k"
  for b :: int
proof (induction ks)
  case Nil
  show ?case by simp
next
  case (Cons x xs)
  show ?case
  proof (cases "x = b")
    case True
    with Cons show ?thesis by simp
  next
    case False
    with Cons.prems show ?thesis by fastforce
  qed
qed

lemma bins_sorted:
  "sorted ks \<Longrightarrow> \<forall>k\<in>set ks. b \<le> k \<Longrightarrow> bins b hi ks = map (\<lambda>k. (k, count_list ks k)) [b..hi]"
proof (induction b hi ks rule: bins.induct)
  case (1 b hi ks)
  show ?case
  proof (cases "hi < b")
    case True
    then show ?thesis by (subst bins.simps) simp
  next
    case False
    let ?ks = "dropWhile (\<lambda>k. k = b) ks"
    have "sorted ?ks"
      using "1.prems"(1) by (rule sorted_wrt_dropWhile)
    with "1.IH" [OF False] dropWhile_above [OF "1.prems"]
    have "bins (b + 1) hi ?ks = map (\<lambda>k. (k, count_list ?ks k)) [b + 1..hi]"
      by simp
    also have "\<dots> = map (\<lambda>k. (k, count_list ks k)) [b + 1..hi]"
      by (rule map_cong) (simp_all add: count_list_dropWhile_other)
    finally show ?thesis
      using False "1.prems"
      by (subst bins.simps) (simp add: upto_rec1 length_takeWhile_eq_count)
  qed
qed

lemma count_list_map_bucket:
  "count_list (map bucket ts) b = length (filter (\<lambda>t. bucket t = b) ts)"
  by (induction ts) auto

lemma length_filter_sort: "length (filter P (sort_key f xs)) = length (filter P xs)"
  by (simp add: filter_sort)

lemma map_fst_grouper_size:
  "ts \<noteq> [] \<Longrightarrow> map fst (grouper_size bucket ts) = [bucket (Min (set ts))..bucket (Max (set ts))]"
  by (simp add: grouper_size_def map_fst_bins)

lemma grouper_size_count_le:
  assumes "(b, n) \<in> set (grouper_size bucket ts)"
  shows "n \<le> length (filter (\<lambda>t. bucket t = b) ts)"
proof -
  from assms have "(b, n) \<in> set (bins (bucket (Min (set ts))) (bucket (Max (set ts))) (map bucket (sort ts)))"
    by (simp add: grouper_size_def split: if_splits)
  then have "n \<le> count_list (map bucket (sort ts)) b"
    by (rule bins_count_le)
  then show ?thesis
    by (simp add: count_list_map_bucket length_filter_sort)
qed

lemma grouper_size_mono:
  assumes "mono bucket" and "ts \<noteq> []"
  shows "grouper_size bucket ts =
     map (\<lambda>b. (b, length (filter (\<lambda>t. bucket t = b) ts))) [bucket (Min (set ts))..bucket (Max (set ts))]"
proof -
  have "sorted_wrt (\<lambda>x y. bucket x \<le> bucket y) (sort ts)"
    using sorted_sort [of ts]
    by (rule sorted_wrt_mono_rel [rotated]) (blast intro: monoD [OF assms(1)])
  then have "sorted (map bucket (sort ts))"
    by (simp add: sorted_map)
  moreover have "\<forall>k\<in>set (map bucket (sort ts)). bucket (Min (set ts)) \<le> k"
    by (simp add: monoD [OF assms(1)])
  ultimately have "bins (bucket (Min (set ts))) (bucket (Max (set ts))) (map bucket (sort ts)) =
     map (\<lambda>k. (k, count_list (map bucket (sort ts)) k)) [bucket (Min (set ts))..bucket (Max (set ts))]"
    by (rule bins_sorted)
  with assms(2) show ?thesis
    by (simp add: grouper_size_def count_list_map_bucket length_filter_sort)
qed

lemma mono_day_bucket: "mono day_bucket"
  by (rule monoI) (simp add: day_bucket_def zdiv_mono1)

lemma mono_week_bucket: "mono week_bucket"
  by (rule monoI) (simp add: week_bucket_def zdiv_mono1)

text \<open>
  The month of a day does not decrease with the day: at each level of the calendar the
  quotient does not decrease, and the months counted below a level stay below the number of
  months of that level.
\<close>

lemma month_in_year_mono:
  "0 \<le> a \<Longrightarrow> a \<le> b \<Longrightarrow> b \<le> 365 \<Longrightarrow>
   month_in_year a \<le> month_in_year b \<and> 0 \<le> month_in_year a \<and> month_in_year b \<le> 11"
  unfolding month_in_year_def by arith

lemma month_in_quad_mono:
  assumes "0 \<le> a" "a \<le> b" "b \<le> 1460"
  shows "month_in_quad a \<le> month_in_quad b \<and> 0 \<le> month_in_quad a \<and> month_in_quad b \<le> 47"
proof -
  define qa ra qb rb where "qa = min 3 (a div 365)" and "ra = a - 365 * qa"
    and "qb = min 3 (b div 365)" and "rb = b - 365 * qb"
  have q: "qa \<le> qb" "0 \<le> qa" "qb \<le> 3"
    using assms unfolding qa_def qb_def by arith+
  have r: "0 \<le> ra" "ra \<le> 365" "0 \<le> rb" "rb \<le> 365"
    using assms unfolding qa_def qb_def ra_def rb_def by arith+
  have eq: "qa = qb \<Longrightarrow> ra \<le> rb"
    using assms unfolding ra_def rb_def by simp
  have ma: "0 \<le> month_in_year ra" "month_in_year ra \<le> 11"
    using month_in_year_mono [of ra ra] r by simp_all
  have mb: "0 \<le> month_in_year rb" "month_in_year rb \<le> 11"
    using month_in_year_mono [of rb rb] r by simp_all
  have "12 * qa + month_in_year ra \<le> 12 * qb + month_in_year rb"
  proof (cases "qa = qb")
    case True
    with eq r month_in_year_mono [of ra rb] show ?thesis by simp
  next
    case False
    with q ma mb show ?thesis by arith
  qed
  with q ma mb show ?thesis
    unfolding month_in_quad_def qa_def [symmetric] qb_def [symmetric] ra_def [symmetric] rb_def [symmetric]
    by arith
qed


lemma month_in_century_mono:
  assumes "0 \<le> a" "a \<le> b" "b \<le> 36524"
  shows "month_in_century a \<le> month_in_century b \<and> 0 \<le> month_in_century a \<and>
    month_in_century b \<le> 1199"
proof -
  define qa ra qb rb where "qa = a div 1461" and "ra = a mod 1461"
    and "qb = b div 1461" and "rb = b mod 1461"
  have q: "qa \<le> qb" "0 \<le> qa" "qb \<le> 24"
    using assms unfolding qa_def qb_def by arith+
  have r: "0 \<le> ra" "ra \<le> 1460" "0 \<le> rb" "rb \<le> 1460"
    unfolding ra_def rb_def by arith+
  have eq: "qa = qb \<Longrightarrow> ra \<le> rb"
    using assms unfolding qa_def qb_def ra_def rb_def by arith
  have ma: "0 \<le> month_in_quad ra" "month_in_quad ra \<le> 47"
    using month_in_quad_mono [of ra ra] r by simp_all
  have mb: "0 \<le> month_in_quad rb" "month_in_quad rb \<le> 47"
    using month_in_quad_mono [of rb rb] r by simp_all
  have "48 * qa + month_in_quad ra \<le> 48 * qb + month_in_quad rb"
  proof (cases "qa = qb")
    case True
    with eq r month_in_quad_mono [of ra rb] show ?thesis by simp
  next
    case False
    with q ma mb show ?thesis by arith
  qed
  with q ma mb show ?thesis
    unfolding month_in_century_def qa_def [symmetric] qb_def [symmetric] ra_def [symmetric]
      rb_def [symmetric]
    by arith
qed

lemma month_in_era_mono:
  assumes "0 \<le> a" "a \<le> b" "b \<le> 146096"
  shows "month_in_era a \<le> month_in_era b \<and> 0 \<le> month_in_era a \<and> month_in_era b \<le> 4799"
proof -
  define qa ra qb rb where "qa = min 3 (a div 36524)" and "ra = a - 36524 * qa"
    and "qb = min 3 (b div 36524)" and "rb = b - 36524 * qb"
  have q: "qa \<le> qb" "0 \<le> qa" "qb \<le> 3"
    using assms unfolding qa_def qb_def by arith+
  have r: "0 \<le> ra" "ra \<le> 36524" "0 \<le> rb" "rb \<le> 36524"
    using assms unfolding qa_def qb_def ra_def rb_def by arith+
  have eq: "qa = qb \<Longrightarrow> ra \<le> rb"
    using assms unfolding ra_def rb_def by simp
  have ma: "0 \<le> month_in_century ra" "month_in_century ra \<le> 1199"
    using month_in_century_mono [of ra ra] r by simp_all
  have mb: "0 \<le> month_in_century rb" "month_in_century rb \<le> 1199"
    using month_in_century_mono [of rb rb] r by simp_all
  have "1200 * qa + month_in_century ra \<le> 1200 * qb + month_in_century rb"
  proof (cases "qa = qb")
    case True
    with eq r month_in_century_mono [of ra rb] show ?thesis by simp
  next
    case False
    with q ma mb show ?thesis by arith
  qed
  with q ma mb show ?thesis
    unfolding month_in_era_def qa_def [symmetric] qb_def [symmetric] ra_def [symmetric]
      rb_def [symmetric]
    by arith
qed

lemma month_rank_mono:
  assumes "a \<le> b"
  shows "month_rank a \<le> month_rank b"
proof -
  define qa ra qb rb where "qa = a div 146097" and "ra = a mod 146097"
    and "qb = b div 146097" and "rb = b mod 146097"
  have q: "qa \<le> qb"
    using assms unfolding qa_def qb_def by arith
  have r: "0 \<le> ra" "ra \<le> 146096" "0 \<le> rb" "rb \<le> 146096"
    unfolding ra_def rb_def by arith+
  have eq: "qa = qb \<Longrightarrow> ra \<le> rb"
    using assms unfolding qa_def qb_def ra_def rb_def by arith
  have ma: "0 \<le> month_in_era ra" "month_in_era ra \<le> 4799"
    using month_in_era_mono [of ra ra] r by simp_all
  have mb: "0 \<le> month_in_era rb" "month_in_era rb \<le> 4799"
    using month_in_era_mono [of rb rb] r by simp_all
  have "4800 * qa + month_in_era ra \<le> 4800 * qb + month_in_era rb"
  proof (cases "qa = qb")
    case True
    with eq r month_in_era_mono [of ra rb] show ?thesis by simp
  next
    case False
    with q ma mb show ?thesis by arith
  qed
  then show ?thesis
    unfolding month_rank_def qa_def [symmetric] qb_def [symmetric] ra_def [symmetric]
      rb_def [symmetric] .
qed

lemma days_to_yearsdays_rank:
  assumes "days_to_yearsdays z = (ym, doy)"
  shows "12 * ym + month_in_year doy = month_rank (z + 719468)"
    and "0 \<le> doy" and "doy \<le> 365"
proof -
  define doe where "doe = (z + 719468) mod 146097"
  define cent where "cent = min 3 (doe div 36524)"
  define dc where "dc = doe - 36524 * cent"
  define dq where "dq = dc mod 1461"
  define yr where "yr = min 3 (dq div 365)"
  from assms have ym: "ym = 400 * ((z + 719468) div 146097) + 100 * cent + 4 * (dc div 1461) + yr"
    and doy: "doy = dq - 365 * yr"
    by (simp_all add: days_to_yearsdays_def Let_def doe_def cent_def dc_def dq_def yr_def)
  have "0 \<le> dq" "dq \<le> 1460"
    unfolding dq_def by arith+
  then show "0 \<le> doy" and "doy \<le> 365"
    unfolding doy yr_def by arith+
  show "12 * ym + month_in_year doy = month_rank (z + 719468)"
    unfolding month_rank_def month_in_era_def month_in_century_def month_in_quad_def
      doe_def [symmetric] cent_def [symmetric] dc_def [symmetric] dq_def [symmetric]
      yr_def [symmetric] ym doy
    by simp
qed

lemma month_bucket_rank: "month_bucket t = month_rank (t div 86400 + 719468) + 2"
proof -
  obtain ym doy where yd: "days_to_yearsdays (t div 86400) = (ym, doy)"
    by (cases "days_to_yearsdays (t div 86400)")
  note r = days_to_yearsdays_rank [OF yd]
  define mp where "mp = month_in_year doy"
  from month_in_year_mono [of doy doy] r(2,3) have mp: "0 \<le> mp" "mp \<le> 11"
    by (simp_all add: mp_def)
  have "month_bucket t =
      12 * (ym + (if (if mp < 10 then mp + 3 else mp - 9) \<le> 2 then 1 else 0)) +
      ((if mp < 10 then mp + 3 else mp - 9) - 1)"
    by (simp add: month_bucket_def civil_from_days_def yd Let_def mp_def month_in_year_def)
  also from mp have "\<dots> = 12 * ym + mp + 2"
    by auto
  finally show ?thesis
    using r(1) by (simp add: mp_def)
qed

lemma mono_month_bucket: "mono month_bucket"
proof (rule monoI)
  fix s t :: int
  assume "s \<le> t"
  then have "s div 86400 + 719468 \<le> t div 86400 + 719468"
    by (simp add: zdiv_mono1)
  then show "month_bucket s \<le> month_bucket t"
    by (simp add: month_bucket_rank month_rank_mono)
qed

lemma supported_to_offset:
  "to_offset L (ascii ''ME'') = Some month_bucket"
  "to_offset L (ascii ''W'') = Some week_bucket"
  "to_offset L (ascii ''D'') = Some day_bucket"
  by (simp_all add: to_offset_def ascii_def)

lemma unsupported_to_offset:
  "freq \<notin> {ascii ''ME'', ascii ''W'', ascii ''D''} \<Longrightarrow> to_offset L freq = other_offsets L freq"
  by (simp add: to_offset_def)

lemma freq_label_eq:
  "freq_label freq =
     (if freq = ascii ''ME'' then Some [26376]
      else if freq = ascii ''W'' then Some [21608]
      else if freq = ascii ''D'' then Some [26085]
      else None)"
  by (simp add: freq_label_def)

lemma analyze_commit_trend_returns:
  assumes "commits_df s = Some df"
    and "ascii ''commit_time'' \<in> set (columns df)"
    and "to_offset L freq = Some bucket"
    and "freq_label freq = Some l"
  shows "analyze_commit_trend L freq s =
     (None,
      s\<lparr>commits_df := Some (set_column df (ascii ''commit_date'')
                          (map (\<lambda>r. dt_date (commit_time r)) (df_rows df))),
        files := (files s)(ascii ''data/commit_trend_'' @ freq @ ascii ''.png'' \<mapsto>
                   LineChart (trend_title l)
                     (grouper_size bucket (map commit_time (df_rows df))))\<rparr>)"
  using assms by (simp add: analyze_commit_trend_def Let_def set_column_def)

lemma analyze_commit_trend_raises:
  assumes "commits_df s = Some df"
    and "ascii ''commit_time'' \<in> set (columns df)"
    and "freq \<notin> {ascii ''ME'', ascii ''W'', ascii ''D''}"
  shows "analyze_commit_trend L freq s =
     ((case other_offsets L freq of
         None \<Rightarrow> Some (ValueError (ascii ''Invalid frequency: '' @ freq))
       | Some bucket \<Rightarrow> Some (KeyError freq)),
      s\<lparr>commits_df := Some (set_column df (ascii ''commit_date'')
                          (map (\<lambda>r. dt_date (commit_time r)) (df_rows df)))\<rparr>)"
  using assms
  by (simp add: analyze_commit_trend_def Let_def unsupported_to_offset freq_label_eq
      split: option.splits)

lemma holding_table:
  "commits_df (holding rs) = Some (DataFrame rs)"
  "files (holding rs) = Map.empty"
  by (simp_all add: holding_def analyzer_on_def)

lemma columns_DataFrame: "rs \<noteq> [] \<Longrightarrow> set (columns (DataFrame rs)) = set commit_info_keys"
  by (simp add: DataFrame_def columns_def)

lemma commit_info_keys_mem:
  "ascii ''commit_time'' \<in> set commit_info_keys"
  "ascii ''author_name'' \<in> set commit_info_keys"
  "ascii ''commit_message'' \<in> set commit_info_keys"
  by (simp_all add: commit_info_keys_def)

text \<open>
  C3.  On a table with at least one row, a period outside \<^verbatim>\<open>"ME"\<close>, \<^verbatim>\<open>"W"\<close>, \<^verbatim>\<open>"D"\<close>
  makes the trend report raise (\<^verbatim>\<open>KeyError\<close> from the lookup table, or \<^verbatim>\<open>ValueError\<close> where
  pandas rejects the string) and leaves the written files as they were; for each of the
  three periods the report returns, and the chart it writes carries the title built from
  the label the lookup table gives for the period.
\<close>

theorem trend_period_supported_or_fails:
  assumes "commits_df s = Some df"
    and "ascii ''commit_time'' \<in> set (columns df)"
    and "df_rows df \<noteq> []"
  shows "(freq \<notin> {ascii ''ME'', ascii ''W'', ascii ''D''} \<longrightarrow>
            fst (analyze_commit_trend L freq s) \<in>
              {Some (KeyError freq), Some (ValueError (ascii ''Invalid frequency: '' @ freq))} \<and>
            files (snd (analyze_commit_trend L freq s)) = files s) \<and>
         (freq \<in> {ascii ''ME'', ascii ''W'', ascii ''D''} \<longrightarrow>
            fst (analyze_commit_trend L freq s) = None \<and>
            (\<exists>l series.
               freq_label freq = Some l \<and>
               l = (if freq = ascii ''ME'' then [26376] else if freq = ascii ''W'' then [21608]
                    else [26085]) \<and>
               files (snd (analyze_commit_trend L freq s))
                   (ascii ''data/commit_trend_'' @ freq @ ascii ''.png'') =
                 Some (LineChart (trend_title l) series)))"
proof (intro conjI impI)
  assume "freq \<notin> {ascii ''ME'', ascii ''W'', ascii ''D''}"
  note r = analyze_commit_trend_raises [OF assms(1,2) this, of L]
  show "fst (analyze_commit_trend L freq s) \<in>
      {Some (KeyError freq), Some (ValueError (ascii ''Invalid frequency: '' @ freq))}"
    by (simp add: r split: option.splits)
  show "files (snd (analyze_commit_trend L freq s)) = files s"
    by (simp add: r)
next
  assume sup: "freq \<in> {ascii ''ME'', ascii ''W'', ascii ''D''}"
  then obtain bucket where b: "to_offset L freq = Some bucket"
    using supported_to_offset [of L] by auto
  from sup obtain l where l: "freq_label freq = Some l"
    and l': "l = (if freq = ascii ''ME'' then [26376] else if freq = ascii ''W'' then [21608]
                    else [26085])"
    by (auto simp: freq_label_eq)
  note r = analyze_commit_trend_returns [OF assms(1,2) b l]
  show "fst (analyze_commit_trend L freq s) = None"
    by (simp add: r)
  show "\<exists>l series.
       freq_label freq = Some l \<and>
       l = (if freq = ascii ''ME'' then [26376] else if freq = ascii ''W'' then [21608]
            else [26085]) \<and>
       files (snd (analyze_commit_trend L freq s))
           (ascii ''data/commit_trend_'' @ freq @ ascii ''.png'') =
         Some (LineChart (trend_title l) series)"
    using l l' by (simp add: r)
qed

theorem trend_period_supported_or_fails_witness:
  "commits_df (holding january_and_march) = Some (DataFrame january_and_march) \<and>
   ascii ''commit_time'' \<in> set (columns (DataFrame january_and_march)) \<and>
   df_rows (DataFrame january_and_march) \<noteq> [] \<and>
   ascii ''Q'' \<notin> {ascii ''ME'', ascii ''W'', ascii ''D''} \<and>
   fst (analyze_commit_trend example_library (ascii ''Q'') (holding january_and_march)) \<in>
     {Some (KeyError (ascii ''Q'')), Some (ValueError (ascii ''Invalid frequency: '' @ ascii ''Q''))} \<and>
   files (snd (analyze_commit_trend example_library (ascii ''Q'') (holding january_and_march))) =
     files (holding january_and_march) \<and>
   ascii ''W'' \<in> {ascii ''ME'', ascii ''W'', ascii ''D''} \<and>
   fst (analyze_commit_trend example_library (ascii ''W'') (holding january_and_march)) = None \<and>
   (\<exists>series.
      files (snd (analyze_commit_trend example_library (ascii ''W'') (holding january_and_march)))
          (ascii ''data/commit_trend_'' @ ascii ''W'' @ ascii ''.png'') =
        Some (LineChart (trend_title [21608]) series))"
proof -
  have h1: "commits_df (holding january_and_march) = Some (DataFrame january_and_march)"
    by (rule holding_table)
  have ne: "january_and_march \<noteq> []"
    by (simp add: january_and_march_def)
  then have h2: "ascii ''commit_time'' \<in> set (columns (DataFrame january_and_march))"
    by (simp add: columns_DataFrame commit_info_keys_mem)
  have h3: "df_rows (DataFrame january_and_march) \<noteq> []"
    using ne by (simp add: df_rows_DataFrame)
  have q: "ascii ''Q'' \<notin> {ascii ''ME'', ascii ''W'', ascii ''D''}"
    by (simp add: ascii_def)
  have w: "ascii ''W'' \<in> {ascii ''ME'', ascii ''W'', ascii ''D''}"
    by simp
  have mw: "ascii ''W'' \<noteq> ascii ''ME''"
    by (simp add: ascii_def)
  from trend_period_supported_or_fails [OF h1 h2 h3, of "ascii ''Q''" example_library]
    trend_period_supported_or_fails [OF h1 h2 h3, of "ascii ''W''" example_library]
    h1 h2 h3 q w mw
  show ?thesis
    by auto
qed


lemma supported_mono:
  assumes "freq \<in> {ascii ''ME'', ascii ''W'', ascii ''D''}"
  obtains bucket where "to_offset L freq = Some bucket" and "mono bucket"
  using assms supported_to_offset [of L] mono_month_bucket mono_week_bucket mono_day_bucket
  by auto

text \<open>
  C7.  On a table with at least one row and for each of the three periods, the series the
  trend report draws lists every period from that of the earliest \<^verbatim>\<open>commit_time\<close> to that of
  the latest one, in order and without a gap, each with the number of rows that fall in it;
  so a period without commits is listed with count 0.  With commits in January and March
  only, the months drawn are January, February with 0, and March.
\<close>

theorem trend_series_is_dense:
  assumes "commits_df s = Some df"
    and "ascii ''commit_time'' \<in> set (columns df)"
    and "df_rows df \<noteq> []"
    and "freq \<in> {ascii ''ME'', ascii ''W'', ascii ''D''}"
  shows "\<exists>bucket title series.
     to_offset L freq = Some bucket \<and>
     files (snd (analyze_commit_trend L freq s)) (ascii ''data/commit_trend_'' @ freq @ ascii ''.png'') =
       Some (LineChart title series) \<and>
     series =
       map (\<lambda>b. (b, length [r \<leftarrow> df_rows df. bucket (commit_time r) = b]))
         [bucket (Min (commit_time ` set (df_rows df)))..bucket (Max (commit_time ` set (df_rows df)))] \<and>
     (\<forall>b. bucket (Min (commit_time ` set (df_rows df))) \<le> b \<and>
          b \<le> bucket (Max (commit_time ` set (df_rows df))) \<and>
          (\<forall>r \<in> set (df_rows df). bucket (commit_time r) \<noteq> b) \<longrightarrow>
          (b, 0) \<in> set series)"
proof -
  let ?ts = "map commit_time (df_rows df)"
  from assms(4) obtain bucket where b: "to_offset L freq = Some bucket" and m: "mono bucket"
    by (rule supported_mono)
  from assms(4) obtain l where l: "freq_label freq = Some l"
    by (auto simp: freq_label_eq ascii_def)
  let ?lo = "bucket (Min (commit_time ` set (df_rows df)))"
  let ?hi = "bucket (Max (commit_time ` set (df_rows df)))"
  let ?count = "\<lambda>b. length [r \<leftarrow> df_rows df. bucket (commit_time r) = b]"
  let ?series = "map (\<lambda>b. (b, ?count b)) [?lo..?hi]"
  note r = analyze_commit_trend_returns [OF assms(1,2) b l]
  from assms(3) have "?ts \<noteq> []" by simp
  with m have "grouper_size bucket ?ts =
      map (\<lambda>b. (b, length (filter (\<lambda>t. bucket t = b) ?ts))) [bucket (Min (set ?ts))..bucket (Max (set ?ts))]"
    by (rule grouper_size_mono)
  then have g: "grouper_size bucket ?ts = ?series"
    by (simp add: length_filter_map comp_def)
  have f: "files (snd (analyze_commit_trend L freq s))
      (ascii ''data/commit_trend_'' @ freq @ ascii ''.png'') = Some (LineChart (trend_title l) ?series)"
    by (simp add: r g)
  have z: "(b, 0) \<in> set ?series"
    if "?lo \<le> b \<and> b \<le> ?hi \<and> (\<forall>r \<in> set (df_rows df). bucket (commit_time r) \<noteq> b)" for b
  proof -
    from that have "?count b = 0"
      by (simp add: filter_empty_conv)
    moreover from that have "b \<in> set [?lo..?hi]"
      by simp
    ultimately show ?thesis
      by (metis (no_types, lifting) image_eqI set_map)
  qed
  from b f z show ?thesis
    by blast
qed

lemma january_and_march_buckets:
  "month_bucket 1705000000 = 24288"
  "month_bucket 1706000000 = 24288"
  "month_bucket 1709337600 = 24290"
  by code_simp+

lemma january_and_march_series:
  "grouper_size month_bucket (map commit_time january_and_march) =
     [(24288, 2), (24289, 0), (24290, 1)]"
  by (simp add: january_and_march_def row_def grouper_size_def january_and_march_buckets bins.simps)

theorem trend_series_is_dense_witness:
  "commits_df (holding january_and_march) = Some (DataFrame january_and_march) \<and>
   ascii ''commit_time'' \<in> set (columns (DataFrame january_and_march)) \<and>
   df_rows (DataFrame january_and_march) \<noteq> [] \<and>
   ascii ''ME'' \<in> {ascii ''ME'', ascii ''W'', ascii ''D''} \<and>
   files (snd (analyze_commit_trend example_library (ascii ''ME'') (holding january_and_march)))
       (ascii ''data/commit_trend_ME.png'') =
     Some (LineChart (trend_title [26376]) [(24288, 2), (24289, 0), (24290, 1)]) \<and>
   (\<exists>bucket title series.
     to_offset example_library (ascii ''ME'') = Some bucket \<and>
     files (snd (analyze_commit_trend example_library (ascii ''ME'') (holding january_and_march)))
         (ascii ''data/commit_trend_'' @ ascii ''ME'' @ ascii ''.png'') =
       Some (LineChart title series) \<and>
     series =
       map (\<lambda>b. (b, length [r \<leftarrow> df_rows (DataFrame january_and_march). bucket (commit_time r) = b]))
         [bucket (Min (commit_time ` set (df_rows (DataFrame january_and_march))))..
          bucket (Max (commit_time ` set (df_rows (DataFrame january_and_march))))] \<and>
     (\<forall>b. bucket (Min (commit_time ` set (df_rows (DataFrame january_and_march)))) \<le> b \<and>
          b \<le> bucket (Max (commit_time ` set (df_rows (DataFrame january_and_march)))) \<and>
          (\<forall>r \<in> set (df_rows (DataFrame january_and_march)). bucket (commit_time r) \<noteq> b) \<longrightarrow>
          (b, 0) \<in> set series))"
proof -
  have h1: "commits_df (holding january_and_march) = Some (DataFrame january_and_march)"
    by (rule holding_table)
  have ne: "january_and_march \<noteq> []"
    by (simp add: january_and_march_def)
  then have h2: "ascii ''commit_time'' \<in> set (columns (DataFrame january_and_march))"
    by (simp add: columns_DataFrame commit_info_keys_mem)
  have h3: "df_rows (DataFrame january_and_march) \<noteq> []"
    using ne by (simp add: df_rows_DataFrame)
  have h4: "ascii ''ME'' \<in> {ascii ''ME'', ascii ''W'', ascii ''D''}"
    by simp
  have "analyze_commit_trend example_library (ascii ''ME'') (holding january_and_march) =
     (None,
      (holding january_and_march)\<lparr>commits_df := Some (set_column (DataFrame january_and_march)
           (ascii ''commit_date'')
           (map (\<lambda>r. dt_date (commit_time r)) (df_rows (DataFrame january_and_march)))),
        files := (files (holding january_and_march))
          (ascii ''data/commit_trend_'' @ ascii ''ME'' @ ascii ''.png'' \<mapsto>
             LineChart (trend_title [26376])
               (grouper_size month_bucket
                  (map commit_time (df_rows (DataFrame january_and_march)))))\<rparr>)"
    by (rule analyze_commit_trend_returns [OF h1 h2])
      (simp_all add: supported_to_offset freq_label_eq)
  then have ev: "files (snd (analyze_commit_trend example_library (ascii ''ME'')
         (holding january_and_march))) (ascii ''data/commit_trend_ME.png'') =
     Some (LineChart (trend_title [26376]) [(24288, 2), (24289, 0), (24290, 1)])"
    by (simp add: df_rows_DataFrame january_and_march_series ascii_def)
  from trend_series_is_dense [OF h1 h2 h3 h4, of example_library] h1 h2 h3 h4 ev
  show ?thesis
    by simp
qed

section \<open>Code churn\<close>

lemma set_fst_group_add: "fst ` set (group_add y i d gs) = insert y (fst ` set gs)"
  by (induction y i d gs rule: group_add.induct) (simp_all add: insert_commute)

lemma sorted_group_add:
  "sorted_wrt (<) (map fst gs) \<Longrightarrow> sorted_wrt (<) (map fst (group_add y i d gs))"
proof (induction gs)
  case Nil
  show ?case by simp
next
  case (Cons g gs)
  obtain y' i' d' where g: "g = (y', i', d')" by (cases g)
  from Cons have "sorted_wrt (<) (map fst (group_add y i d gs))" by simp
  moreover from Cons.prems g have "\<forall>k \<in> fst ` set gs. y' < k" by auto
  ultimately show ?case
    using Cons.prems g by (auto simp: set_fst_group_add)
qed

lemma int64_int64_add: "int64 (int64 a + b) = int64 (a + b)"
proof -
  have "(int64 a + b + 9223372036854775808) mod 18446744073709551616 =
      ((a + 9223372036854775808) mod 18446744073709551616 + b) mod 18446744073709551616"
    by (simp add: int64_def)
  also have "\<dots> = (a + 9223372036854775808 + b) mod 18446744073709551616"
    by (rule mod_add_left_eq)
  also have "\<dots> = (a + b + 9223372036854775808) mod 18446744073709551616"
    by (simp add: ac_simps)
  finally show ?thesis
    by (simp add: int64_def)
qed

lemma int64_in_range:
  "- 9223372036854775808 \<le> x \<Longrightarrow> x < 9223372036854775808 \<Longrightarrow> int64 x = x"
  by (simp add: int64_def)

lemma map_of_group_add:
  "sorted_wrt (<) (map fst gs) \<Longrightarrow>
   map_of (group_add y i d gs) =
     (map_of gs)(y \<mapsto> (case map_of gs y of None \<Rightarrow> (int64 i, int64 d)
        | Some (i', d') \<Rightarrow> (int64 (i' + i), int64 (d' + d))))"
proof (induction gs)
  case Nil
  show ?case by simp
next
  case (Cons g gs)
  obtain y' i' d' where g: "g = (y', i', d')" by (cases g)
  show ?case
  proof (cases "y = y'")
    case True
    with g show ?thesis by auto
  next
    case False
    show ?thesis
    proof (cases "y < y'")
      case True
      with Cons.prems g have "y \<notin> fst ` set gs" by fastforce
      then have "map_of gs y = None" by (simp add: map_of_eq_None_iff)
      with True False g show ?thesis by auto
    next
      case ge: False
      from Cons.prems have "sorted_wrt (<) (map fst gs)"
        by simp
      note IH = Cons.IH [OF this]
      show ?thesis
      proof (rule ext)
        fix z
        show "map_of (group_add y i d (g # gs)) z =
          ((map_of (g # gs))(y \<mapsto> (case map_of (g # gs) y of None \<Rightarrow> (int64 i, int64 d)
              | Some (i', d') \<Rightarrow> (int64 (i' + i), int64 (d' + d))))) z"
          using False ge g by (simp add: IH)
      qed
    qed
  qed
qed

lemma groups_of_snoc:
  "groups_of (ps @ [(y, r)]) = group_add y (insertions r) (deletions r) (groups_of ps)"
  by (simp add: groups_of_def)

text \<open>
  The table of groups has its keys ascending, one for each key of the rows, and holds for
  each key the two sums of its rows as 64 bits keep them.
\<close>

lemma groups_of_invariant:
  "sorted_wrt (<) (map fst (groups_of ps)) \<and>
   fst ` set (groups_of ps) = fst ` set ps \<and>
   (\<forall>y \<in> fst ` set ps.
      map_of (groups_of ps) y = Some (map_prod int64 int64 (group_total y ps)))"
proof (induction ps rule: rev_induct)
  case Nil
  show ?case by (simp add: groups_of_def)
next
  case (snoc p ps)
  obtain y r where p: "p = (y, r)" by (cases p)
  from snoc have s: "sorted_wrt (<) (map fst (groups_of ps))"
    and k: "fst ` set (groups_of ps) = fst ` set ps"
    and t: "\<forall>y \<in> fst ` set ps.
      map_of (groups_of ps) y = Some (map_prod int64 int64 (group_total y ps))"
    by simp_all
  have "sorted_wrt (<) (map fst (groups_of (ps @ [p])))"
    unfolding p groups_of_snoc using s by (rule sorted_group_add)
  moreover have "fst ` set (groups_of (ps @ [p])) = fst ` set (ps @ [p])"
    by (simp add: p groups_of_snoc set_fst_group_add k)
  moreover have "map_of (groups_of (ps @ [p])) z =
      Some (map_prod int64 int64 (group_total z (ps @ [p])))"
    if "z \<in> fst ` set (ps @ [p])" for z
  proof (cases "z = y")
    case True
    show ?thesis
    proof (cases "y \<in> fst ` set ps")
      case True
      with t have "map_of (groups_of ps) y = Some (map_prod int64 int64 (group_total y ps))"
        by blast
      with \<open>z = y\<close> show ?thesis
        by (simp add: p groups_of_snoc map_of_group_add [OF s] group_total_def int64_int64_add)
    next
      case False
      with k have "map_of (groups_of ps) y = None"
        by (simp add: map_of_eq_None_iff)
      moreover from False have "filter (\<lambda>p. fst p = y) ps = []"
        by (auto simp: filter_empty_conv)
      ultimately show ?thesis
        using \<open>z = y\<close>
        by (simp add: p groups_of_snoc map_of_group_add [OF s] group_total_def)
    qed
  next
    case False
    with that p have "z \<in> fst ` set ps" by auto
    with t have "map_of (groups_of ps) z = Some (map_prod int64 int64 (group_total z ps))"
      by blast
    with False show ?thesis
      by (simp add: p groups_of_snoc map_of_group_add [OF s] group_total_def)
  qed
  ultimately show ?case by blast
qed

lemma groupby_sum_eq: "groupby_sum (map f rs) rs = groups_of (map (\<lambda>r. (f r, r)) rs)"
  by (simp add: groupby_sum_def groups_of_def zip_map1 zip_same_conv_map comp_def)

lemma group_total_keyed:
  "group_total y (map (\<lambda>r. (f r, r)) rs) =
     (sum_list (map insertions (filter (\<lambda>r. f r = y) rs)),
      sum_list (map deletions (filter (\<lambda>r. f r = y) rs)))"
  by (simp add: group_total_def filter_map comp_def)

lemma sum_list_filter_bounds:
  fixes f :: "'a \<Rightarrow> int"
  assumes "\<forall>x \<in> set xs. 0 \<le> f x"
  shows "0 \<le> sum_list (map f (filter P xs)) \<and>
    sum_list (map f (filter P xs)) \<le> sum_list (map f xs)"
  using assms by (induction xs) auto

lemma analyze_code_churn_returns:
  assumes "commits_df s = Some df"
    and "ascii ''commit_time'' \<in> set (columns df)"
  shows "analyze_code_churn s =
     (None,
      s\<lparr>commits_df := Some (set_column df (ascii ''commit_year'')
                          (map (\<lambda>r. dt_year (commit_time r)) (df_rows df))),
        files := (files s)(ascii ''data/code_churn_year.png'' \<mapsto>
                   StackedBarChart
                     (code_churn_of (map (\<lambda>r. dt_year (commit_time r)) (df_rows df))
                        (df_rows df)))\<rparr>)"
  using assms by (simp add: analyze_code_churn_def Let_def set_column_def)

text \<open>
  C8.  On a table with at least one row, whose line counts are not negative and add up to
  less than \<open>2\<^sup>6\<^sup>3\<close> (the range of the 64-bit columns), the churn report returns and draws one
  row for each calendar year in which the table has a commit, years ascending; the row of a
  year holds the sum of the insertions of that year's rows, the sum of their deletions, and
  as \<^verbatim>\<open>net_change\<close> the first sum minus the second, an integer that may be negative.  For one
  year with insertions 10, 20 and deletions 5, 5 the row is 30, 10, 20.
\<close>

theorem yearly_churn:
  assumes "commits_df s = Some df"
    and "ascii ''commit_time'' \<in> set (columns df)"
    and "df_rows df \<noteq> []"
    and "\<forall>r \<in> set (df_rows df). 0 \<le> insertions r \<and> 0 \<le> deletions r"
    and "sum_list (map insertions (df_rows df)) < 9223372036854775808"
    and "sum_list (map deletions (df_rows df)) < 9223372036854775808"
  shows "\<exists>churn.
     fst (analyze_code_churn s) = None \<and>
     files (snd (analyze_code_churn s)) (ascii ''data/code_churn_year.png'') =
       Some (StackedBarChart churn) \<and>
     sorted_wrt (<) (map fst churn) \<and>
     set (map fst churn) = (\<lambda>r. dt_year (commit_time r)) ` set (df_rows df) \<and>
     (\<forall>(y, i, d, n) \<in> set churn.
        i = sum_list (map insertions [r \<leftarrow> df_rows df. dt_year (commit_time r) = y]) \<and>
        d = sum_list (map deletions [r \<leftarrow> df_rows df. dt_year (commit_time r) = y]) \<and>
        n = i - d)"
proof -
  let ?year = "\<lambda>r. dt_year (commit_time r)"
  let ?ps = "map (\<lambda>r. (?year r, r)) (df_rows df)"
  let ?gs = "groups_of ?ps"
  let ?churn = "code_churn_of (map ?year (df_rows df)) (df_rows df)"
  have churn: "?churn = map (\<lambda>(y, i, d). (y, i, d, int64 (i - d))) ?gs"
    by (simp add: code_churn_of_def groupby_sum_eq)
  from groups_of_invariant [of ?ps]
  have s: "sorted_wrt (<) (map fst ?gs)"
    and k: "fst ` set ?gs = fst ` set ?ps"
    and t: "\<forall>y \<in> fst ` set ?ps.
      map_of ?gs y = Some (map_prod int64 int64 (group_total y ?ps))"
    by blast+
  have fsts: "map fst ?churn = map fst ?gs"
    by (simp add: churn comp_def split_def)
  have 1: "sorted_wrt (<) (map fst ?churn)"
    using s by (simp only: fsts)
  have 2: "set (map fst ?churn) = ?year ` set (df_rows df)"
    using k by (simp add: fsts image_image)
  have 3: "i = sum_list (map insertions [r \<leftarrow> df_rows df. ?year r = y]) \<and>
        d = sum_list (map deletions [r \<leftarrow> df_rows df. ?year r = y]) \<and> n = i - d"
    if "(y, i, d, n) \<in> set ?churn" for y i d n
  proof -
    let ?i = "sum_list (map insertions [r \<leftarrow> df_rows df. ?year r = y])"
    let ?d = "sum_list (map deletions [r \<leftarrow> df_rows df. ?year r = y])"
    from that have g: "(y, i, d) \<in> set ?gs" and n: "n = int64 (i - d)"
      by (auto simp: churn)
    from s have "distinct (map fst ?gs)"
      by (simp add: strict_sorted_iff)
    with g have "map_of ?gs y = Some (i, d)"
      by simp
    moreover from g k have "y \<in> fst ` set ?ps"
      by force
    ultimately have "map_prod int64 int64 (group_total y ?ps) = (i, d)"
      using t by auto
    then have id: "i = int64 ?i" "d = int64 ?d"
      by (simp_all add: group_total_keyed)
    from assms(4) have "\<forall>r \<in> set (df_rows df). 0 \<le> insertions r"
      and "\<forall>r \<in> set (df_rows df). 0 \<le> deletions r"
      by simp_all
    from sum_list_filter_bounds [OF this(1), of "\<lambda>r. ?year r = y"]
      sum_list_filter_bounds [OF this(2), of "\<lambda>r. ?year r = y"] assms(5,6)
    have b: "0 \<le> ?i" "?i < 9223372036854775808" "0 \<le> ?d" "?d < 9223372036854775808"
      by simp_all
    then have "int64 ?i = ?i" "int64 ?d = ?d" "int64 (?i - ?d) = ?i - ?d"
      by (simp_all add: int64_in_range)
    with id n show ?thesis
      by simp
  qed
  from analyze_code_churn_returns [OF assms(1,2)]
  have "fst (analyze_code_churn s) = None"
    and "files (snd (analyze_code_churn s)) (ascii ''data/code_churn_year.png'') =
       Some (StackedBarChart ?churn)"
    by simp_all
  with 1 2 3 show ?thesis
    by blast
qed

lemma one_year_years:
  "dt_year 1705000000 = 2024"
  "dt_year 1706000000 = 2024"
  by code_simp+

lemma one_year_churn:
  "code_churn_of (map (\<lambda>r. dt_year (commit_time r)) one_year) one_year = [(2024, 30, 10, 20)]"
  by (simp add: one_year_def row_def code_churn_of_def groupby_sum_def one_year_years int64_def)

text \<open>
  Beyond the range the sums wrap: insertions of \<open>2\<^sup>6\<^sup>3 - 1\<close> and 1 in one year are drawn as
  \<open>- 2\<^sup>6\<^sup>3\<close>, and the net change against one deleted line as \<open>2\<^sup>6\<^sup>3 - 1\<close>.
\<close>

lemma wide_year_churn:
  "code_churn_of (map (\<lambda>r. dt_year (commit_time r)) wide_year) wide_year =
     [(2024, - 9223372036854775808, 1, 9223372036854775807)]"
  by (simp add: wide_year_def row_def code_churn_of_def groupby_sum_def one_year_years int64_def)

theorem yearly_churn_witness:
  "commits_df (holding one_year) = Some (DataFrame one_year) \<and>
   ascii ''commit_time'' \<in> set (columns (DataFrame one_year)) \<and>
   df_rows (DataFrame one_year) \<noteq> [] \<and>
   map insertions (df_rows (DataFrame one_year)) = [10, 20] \<and>
   map deletions (df_rows (DataFrame one_year)) = [5, 5] \<and>
   sum_list (map insertions (df_rows (DataFrame one_year))) < 9223372036854775808 \<and>
   sum_list (map deletions (df_rows (DataFrame one_year))) < 9223372036854775808 \<and>
   files (snd (analyze_code_churn (holding one_year))) (ascii ''data/code_churn_year.png'') =
     Some (StackedBarChart [(2024, 30, 10, 20)]) \<and>
   (\<exists>churn.
     fst (analyze_code_churn (holding one_year)) = None \<and>
     files (snd (analyze_code_churn (holding one_year))) (ascii ''data/code_churn_year.png'') =
       Some (StackedBarChart churn) \<and>
     sorted_wrt (<) (map fst churn) \<and>
     set (map fst churn) = (\<lambda>r. dt_year (commit_time r)) ` set (df_rows (DataFrame one_year)) \<and>
     (\<forall>(y, i, d, n) \<in> set churn.
        i = sum_list (map insertions [r \<leftarrow> df_rows (DataFrame one_year). dt_year (commit_time r) = y]) \<and>
        d = sum_list (map deletions [r \<leftarrow> df_rows (DataFrame one_year). dt_year (commit_time r) = y]) \<and>
        n = i - d))"
proof -
  have h1: "commits_df (holding one_year) = Some (DataFrame one_year)"
    by (rule holding_table)
  have ne: "one_year \<noteq> []"
    by (simp add: one_year_def)
  then have h2: "ascii ''commit_time'' \<in> set (columns (DataFrame one_year))"
    by (simp add: columns_DataFrame commit_info_keys_mem)
  have h3: "df_rows (DataFrame one_year) \<noteq> []"
    using ne by (simp add: df_rows_DataFrame)
  have h4: "\<forall>r \<in> set (df_rows (DataFrame one_year)). 0 \<le> insertions r \<and> 0 \<le> deletions r"
    by (simp add: df_rows_DataFrame one_year_def row_def)
  have h5: "sum_list (map insertions (df_rows (DataFrame one_year))) < 9223372036854775808"
    and h6: "sum_list (map deletions (df_rows (DataFrame one_year))) < 9223372036854775808"
    by (simp_all add: df_rows_DataFrame one_year_def row_def)
  have ev: "files (snd (analyze_code_churn (holding one_year))) (ascii ''data/code_churn_year.png'') =
     Some (StackedBarChart [(2024, 30, 10, 20)])"
    by (simp add: analyze_code_churn_returns [OF h1 h2] df_rows_DataFrame one_year_churn)
  have counts: "map insertions (df_rows (DataFrame one_year)) = [10, 20]"
    "map deletions (df_rows (DataFrame one_year)) = [5, 5]"
    by (simp_all add: df_rows_DataFrame one_year_def row_def)
  from yearly_churn [OF h1 h2 h3 h4 h5 h6] h1 h2 h3 counts h5 h6 ev show ?thesis
    by simp
qed

section \<open>Word cloud\<close>

lemma concat_singletons: "concat (map (\<lambda>i. [g i]) xs) = map g xs"
  by (induction xs) simp_all

lemma lower_ascii:
  assumes "\<forall>c \<in> set s. c < 128"
  shows "lower L s = map ascii_lower s"
proof -
  have "lower L s = concat (map (\<lambda>i. [ascii_lower (s ! i)]) [0..<length s])"
    unfolding lower_def
    by (rule arg_cong [where f = concat], rule map_cong)
      (use assms in \<open>auto simp: ascii_lower_def Let_def\<close>)
  also have "\<dots> = map (\<lambda>i. ascii_lower (s ! i)) [0..<length s]"
    by (rule concat_singletons)
  also have "\<dots> = map ascii_lower (map (\<lambda>i. s ! i) [0..<length s])"
    by (simp only: map_map comp_def)
  also have "\<dots> = map ascii_lower s"
    by (simp only: map_nth)
  finally show ?thesis .
qed

lemma ascii_lower_small: "ascii_lower c < 128 \<Longrightarrow> c < 128"
  by (simp add: ascii_lower_def split: if_splits)

lemma stop_words_ascii: "\<forall>sw \<in> set stop_words. \<forall>c \<in> set sw. ascii_lower c < 128"
  by (simp add: stop_words_def ascii_def ascii_lower_def)

lemma stop_words_lowered:
  "\<forall>sw \<in> set stop_words. map ascii_lower sw \<in> set stop_words \<or> length sw < 2"
  by (simp add: stop_words_def ascii_def ascii_lower_def)

text \<open>
  C9.  The word filter keeps, in their order, exactly the tokens of length at least 2 whose
  lower-case form is not in the stop-word list.  A token that equals a stop word up to the
  case of its letters is never kept (for the stop word \<^verbatim>\<open>I\<close>, whose lower-case form is not in
  the list, because such a token has length 1), and no token of length below 2 is kept.
  From the tokens of \<^verbatim>\<open>fix login bug update readme Fix I x UP\<close> the words \<^verbatim>\<open>login\<close>, \<^verbatim>\<open>bug\<close>,
  \<^verbatim>\<open>readme\<close> remain.
\<close>

theorem word_filter:
  "filtered_words L words = [w \<leftarrow> words. 2 \<le> length w \<and> lower L w \<notin> set stop_words] \<and>
   (\<forall>sw \<in> set stop_words. \<forall>w. same_ignoring_case w sw \<longrightarrow> w \<notin> set (filtered_words L words)) \<and>
   (\<forall>w. length w < 2 \<longrightarrow> w \<notin> set (filtered_words L words))"
proof (intro conjI ballI allI impI)
  show "filtered_words L words = [w \<leftarrow> words. 2 \<le> length w \<and> lower L w \<notin> set stop_words]"
    by (simp add: filtered_words_def)
next
  fix sw w
  assume sw: "sw \<in> set stop_words" and m: "same_ignoring_case w sw"
  from m have eq: "map ascii_lower w = map ascii_lower sw"
    by (simp add: same_ignoring_case_def)
  have "c < 128" if "c \<in> set w" for c
  proof -
    from that have "ascii_lower c \<in> set (map ascii_lower w)" by simp
    then have "ascii_lower c \<in> ascii_lower ` set sw" by (simp add: eq)
    with sw stop_words_ascii have "ascii_lower c < 128" by auto
    then show ?thesis by (rule ascii_lower_small)
  qed
  then have low: "lower L w = map ascii_lower sw"
    by (simp add: lower_ascii eq)
  from eq have len: "length w = length sw"
    by (rule map_eq_imp_length_eq)
  from sw stop_words_lowered have "map ascii_lower sw \<in> set stop_words \<or> length sw < 2"
    by blast
  then show "w \<notin> set (filtered_words L words)"
    by (auto simp: filtered_words_def low len)
next
  fix w :: pystr
  assume "length w < 2"
  then show "w \<notin> set (filtered_words L words)"
    by (simp add: filtered_words_def)
qed

lemma example_tokens_filtered:
  "filtered_words L example_tokens = map ascii [''login'', ''bug'', ''readme'']"
  by (simp add: filtered_words_def example_tokens_def lower_ascii ascii_def ascii_lower_def
      stop_words_def)

theorem word_filter_witness:
  "ascii ''fix'' \<in> set stop_words \<and>
   same_ignoring_case (ascii ''Fix'') (ascii ''fix'') \<and>
   ascii ''Fix'' \<notin> set (filtered_words example_library example_tokens) \<and>
   length (ascii ''x'') < 2 \<and>
   ascii ''x'' \<notin> set (filtered_words example_library example_tokens) \<and>
   filtered_words example_library example_tokens = map ascii [''login'', ''bug'', ''readme'']"
proof -
  have sw: "ascii ''fix'' \<in> set stop_words"
    by (simp add: stop_words_def)
  have m: "same_ignoring_case (ascii ''Fix'') (ascii ''fix'')"
    by (simp add: same_ignoring_case_def ascii_def ascii_lower_def)
  have x: "length (ascii ''x'') < 2"
    by (simp add: ascii_def)
  note wf = word_filter [of example_library example_tokens]
  from wf sw m have f: "ascii ''Fix'' \<notin> set (filtered_words example_library example_tokens)"
    by blast
  from wf x have g: "ascii ''x'' \<notin> set (filtered_words example_library example_tokens)"
    by blast
  from sw m x f g example_tokens_filtered [of example_library] show ?thesis
    by (intro conjI)
qed

section \<open>The table after a report\<close>

lemma analyze_contributor_distribution_table:
  "commits_df (snd (analyze_contributor_distribution L s)) = commits_df s"
  by (simp add: analyze_contributor_distribution_def Let_def split: option.splits)

lemma generate_commit_message_wordcloud_table:
  "commits_df (snd (generate_commit_message_wordcloud L s)) = commits_df s"
  by (simp add: generate_commit_message_wordcloud_def Let_def split: option.splits)

lemma setitem_others:
  "filter (\<lambda>c. fst c \<noteq> l) (setitem cs l vs) = filter (\<lambda>c. fst c \<noteq> l) cs"
  by (induction cs l vs rule: setitem.induct) auto

lemma map_fst_setitem:
  "map fst (setitem cs l vs) = (if l \<in> fst ` set cs then map fst cs else map fst cs @ [l])"
  by (induction cs l vs rule: setitem.induct) auto

lemma same_but_set_column: "same_but l (Some df) (Some (set_column df l vs))"
  by (simp add: same_but_def set_column_def setitem_others)

lemma same_but_refl: "same_but l t t"
  by (simp add: same_but_def)

lemma analyze_commit_trend_table:
  "same_but (ascii ''commit_date'') (commits_df s) (commits_df (snd (analyze_commit_trend L freq s)))"
  by (auto simp: analyze_commit_trend_def Let_def same_but_refl same_but_set_column
      split: option.splits)

lemma analyze_code_churn_table:
  "same_but (ascii ''commit_year'') (commits_df s) (commits_df (snd (analyze_code_churn s)))"
  by (auto simp: analyze_code_churn_def Let_def same_but_refl same_but_set_column
      split: option.splits)

text \<open>
  C2, as the source has it.  The contributor report and the word cloud leave \<^verbatim>\<open>commits_df\<close>
  as it was.  The trend report and the churn report leave its rows, its index, the columns
  built at extraction and every other added column as they were; each of the two stores one
  derived column in the table, \<^verbatim>\<open>commit_date\<close> and \<^verbatim>\<open>commit_year\<close>.
\<close>

theorem reports_keep_the_extracted_table:
  "commits_df (snd (analyze_contributor_distribution L s)) = commits_df s \<and>
   commits_df (snd (generate_commit_message_wordcloud L s)) = commits_df s \<and>
   same_but (ascii ''commit_date'') (commits_df s)
     (commits_df (snd (analyze_commit_trend L freq s))) \<and>
   same_but (ascii ''commit_year'') (commits_df s) (commits_df (snd (analyze_code_churn s)))"
  by (intro conjI analyze_contributor_distribution_table generate_commit_message_wordcloud_table
      analyze_commit_trend_table analyze_code_churn_table)

theorem reports_keep_the_extracted_table_witness:
  "commits_df (snd (analyze_contributor_distribution example_library (holding one_row))) =
     commits_df (holding one_row) \<and>
   commits_df (snd (generate_commit_message_wordcloud example_library (holding one_row))) =
     commits_df (holding one_row) \<and>
   same_but (ascii ''commit_date'') (commits_df (holding one_row))
     (commits_df (snd (analyze_commit_trend example_library (ascii ''ME'') (holding one_row)))) \<and>
   same_but (ascii ''commit_year'') (commits_df (holding one_row))
     (commits_df (snd (analyze_code_churn (holding one_row))))"
  by (rule reports_keep_the_extracted_table)

lemma one_row_table:
  "commits_df (holding one_row) = Some (DataFrame one_row)"
  "ascii ''commit_time'' \<in> set (columns (DataFrame one_row))"
  by (simp_all add: holding_table columns_DataFrame commit_info_keys_mem one_row_def)

text \<open>
  C2, as claimed, says that after any report the table has exactly the columns it had.  On a
  table of one row the churn report leaves a table with the additional column
  \<^verbatim>\<open>commit_year\<close>.
\<close>

theorem churn_adds_a_column:
  "map_option columns (commits_df (holding one_row)) = Some commit_info_keys \<and>
   map_option columns (commits_df (snd (analyze_code_churn (holding one_row)))) =
     Some (commit_info_keys @ [ascii ''commit_year'']) \<and>
   commits_df (snd (analyze_code_churn (holding one_row))) \<noteq> commits_df (holding one_row)"
proof -
  have a: "map_option columns (commits_df (holding one_row)) = Some commit_info_keys"
    by (simp add: holding_table DataFrame_def columns_def one_row_def)
  have b: "map_option columns (commits_df (snd (analyze_code_churn (holding one_row)))) =
     Some (commit_info_keys @ [ascii ''commit_year''])"
    unfolding analyze_code_churn_returns [OF one_row_table]
    by (simp add: set_column_def columns_def DataFrame_def one_row_def)
  have "map_option columns (commits_df (snd (analyze_code_churn (holding one_row)))) \<noteq>
      map_option columns (commits_df (holding one_row))"
    unfolding a b by simp
  then have "commits_df (snd (analyze_code_churn (holding one_row))) \<noteq> commits_df (holding one_row)"
    by auto
  with a b show ?thesis by simp
qed

section \<open>Resolving the repository\<close>

lemma replace_from_absent:
  "\<forall>i \<in> {0..length s}. take (length old) (drop i s) \<noteq> old \<Longrightarrow> replace_from old new s = s"
proof (induction s)
  case Nil
  show ?case by simp
next
  case (Cons x xs)
  have "0 \<in> {0..length (x # xs)}" by simp
  with Cons.prems have "take (length old) (drop 0 (x # xs)) \<noteq> old"
    by blast
  then have 0: "take (length old) (x # xs) \<noteq> old" by simp
  have "\<forall>i \<in> {0..length xs}. take (length old) (drop i xs) \<noteq> old"
  proof
    fix i assume "i \<in> {0..length xs}"
    then have "Suc i \<in> {0..length (x # xs)}" by simp
    with Cons.prems have "take (length old) (drop (Suc i) (x # xs)) \<noteq> old" by blast
    then show "take (length old) (drop i xs) \<noteq> old" by simp
  qed
  with Cons.IH 0 show ?case by simp
qed

lemma replace_from_prefix:
  assumes "old \<noteq> []"
  shows "replace_from old new (old @ rest) = new @ replace_from old new rest"
proof -
  from assms obtain x xs where "old @ rest = x # xs"
    by (cases old) auto
  moreover have "take (length old) (old @ rest) = old" "drop (length old) (old @ rest) = rest"
    by simp_all
  ultimately show ?thesis
    using assms by (metis replace_from.simps(2))
qed

lemma fix_git_ownership_fields:
  "local_paths (fix_git_ownership p s) = local_paths s"
  "local_repo_path (fix_git_ownership p s) = local_repo_path s"
  "GITHUB_TOKEN (fix_git_ownership p s) = GITHUB_TOKEN s"
  "repo_url (fix_git_ownership p s) = repo_url s"
  "remotes (fix_git_ownership p s) = remotes s"
  "clone_calls (fix_git_ownership p s) = clone_calls s"
  by (simp_all add: fix_git_ownership_def Let_def)

lemma clone_repo_present:
  assumes "local_paths s (local_repo_path s) = Some node"
  shows "clone_repo s =
     Repo (local_repo_path s) (fix_git_ownership (abspath s (local_repo_path s)) s)"
  using assms by (simp add: clone_repo_def Let_def fix_git_ownership_fields)

lemma clone_repo_absent:
  assumes "local_paths s (local_repo_path s) = None"
  shows "clone_repo s =
     clone_from (fetch_address s) (local_repo_path s)
       (fix_git_ownership (abspath s (local_repo_path s)) s)"
  using assms by (simp add: clone_repo_def Let_def fix_git_ownership_fields fetch_address_def)

lemma Repo_clone_calls: "clone_calls (snd (Repo p s)) = clone_calls s"
  by (simp add: Repo_def split: option.splits fsnode.splits)

lemma Repo_opens:
  "local_paths s p = Some (Repository r) \<Longrightarrow> Repo p s = (None, s\<lparr>repo := Some r\<rparr>)"
  by (simp add: Repo_def)

lemma clone_from_clone_calls: "clone_calls (snd (clone_from url p s)) = clone_calls s @ [url]"
  by (simp add: clone_from_def Let_def split: option.splits)

lemma clone_from_fetches:
  "remotes s url = Some r \<Longrightarrow>
   clone_from url p s =
     (None, s\<lparr>clone_calls := clone_calls s @ [url],
              local_paths := (local_paths s)(p \<mapsto> Repository r), repo := Some r\<rparr>)"
  by (simp add: clone_from_def Let_def)

lemma occurs_in_Nil: "occurs_in old [] \<longleftrightarrow> old = []"
  by (auto simp: occurs_in_def)

lemma occurs_in_Cons:
  "occurs_in old (x # xs) \<longleftrightarrow> take (length old) (x # xs) = old \<or> occurs_in old xs"
proof
  assume "occurs_in old (x # xs)"
  then obtain i where i: "i \<le> Suc (length xs)" "take (length old) (drop i (x # xs)) = old"
    by (auto simp: occurs_in_def)
  show "take (length old) (x # xs) = old \<or> occurs_in old xs"
  proof (cases i)
    case 0
    with i show ?thesis by simp
  next
    case (Suc j)
    with i have "j \<in> {0..length xs}" "take (length old) (drop j xs) = old" by simp_all
    then show ?thesis unfolding occurs_in_def by blast
  qed
next
  assume "take (length old) (x # xs) = old \<or> occurs_in old xs"
  then show "occurs_in old (x # xs)"
  proof
    assume "take (length old) (x # xs) = old"
    then have "take (length old) (drop 0 (x # xs)) = old" by simp
    moreover have "0 \<in> {0..length (x # xs)}" by simp
    ultimately show ?thesis unfolding occurs_in_def by blast
  next
    assume "occurs_in old xs"
    then obtain j where "j \<in> {0..length xs}" "take (length old) (drop j xs) = old"
      by (auto simp: occurs_in_def)
    then have "Suc j \<in> {0..length (x # xs)}" "take (length old) (drop (Suc j) (x # xs)) = old"
      by simp_all
    then show ?thesis unfolding occurs_in_def by blast
  qed
qed

lemma ssh_reference_fields:
  "GITHUB_TOKEN ssh_reference = ascii ''tok''"
  "repo_url ssh_reference = ascii ''git@github.com:psf/requests.git''"
  "local_paths ssh_reference (local_repo_path ssh_reference) = None"
  "clone_calls ssh_reference = []"
  by (simp_all add: ssh_reference_def analyzer_on_def)

lemma ssh_reference_address:
  "fetch_address ssh_reference = ascii ''git@github.com:psf/requests.git''"
  by (simp add: fetch_address_def ssh_reference_fields replace_def) (simp add: ascii_def)

lemma with_token_fields:
  "GITHUB_TOKEN with_token = ascii ''tok''"
  "repo_url with_token = ascii ''https://'' @ ascii ''github.com/psf/requests.git''"
  "local_paths with_token (local_repo_path with_token) = None"
  "clone_calls with_token = []"
  "remotes with_token (ascii ''https://tok@github.com/psf/requests.git'') =
     Some (Log [commit_at ''A'' 100 1 0])"
  by (simp_all add: with_token_def analyzer_on_def ascii_def)

lemma already_cloned_fields:
  "local_paths already_cloned (local_repo_path already_cloned) =
     Some (Repository (Log [commit_at ''A'' 100 1 0]))"
  "clone_calls already_cloned = []"
  by (simp_all add: already_cloned_def analyzer_on_def)

lemma replace_rest:
  "replace (ascii ''github.com/psf/requests.git'') (ascii ''https://'') (ascii ''https://tok@'') =
     ascii ''github.com/psf/requests.git''"
  by (simp add: replace_def ascii_def)

lemma ssh_reference_no_https:
  "\<not> occurs_in (ascii ''https://'') (ascii ''git@github.com:psf/requests.git'')"
  by (simp add: occurs_in_Nil occurs_in_Cons ascii_def)

text \<open>
  C10, as the source has it.  When the local path exists, \<^verbatim>\<open>clone_repo\<close> fetches nothing, and
  a repository at the path is opened.  When the path does not exist, one fetch is made, into
  the path; its address is the reference itself when no token is configured, and otherwise
  the reference with every \<^verbatim>\<open>https://\<close> followed by the token and \<^verbatim>\<open>@\<close>: a reference that
  starts with \<^verbatim>\<open>https://\<close> carries the token, and one in which \<^verbatim>\<open>https://\<close> does not occur
  is fetched as it is.
\<close>

theorem clone_repo_by_presence:
  "(local_paths s (local_repo_path s) \<noteq> None \<longrightarrow>
      clone_calls (snd (clone_repo s)) = clone_calls s \<and>
      (\<forall>r. local_paths s (local_repo_path s) = Some (Repository r) \<longrightarrow>
         fst (clone_repo s) = None \<and> repo (snd (clone_repo s)) = Some r)) \<and>
   (local_paths s (local_repo_path s) = None \<longrightarrow>
      clone_calls (snd (clone_repo s)) = clone_calls s @ [fetch_address s] \<and>
      (\<forall>r. remotes s (fetch_address s) = Some r \<longrightarrow>
         fst (clone_repo s) = None \<and> repo (snd (clone_repo s)) = Some r \<and>
         local_paths (snd (clone_repo s)) (local_repo_path s) = Some (Repository r))) \<and>
   (GITHUB_TOKEN s = [] \<longrightarrow> fetch_address s = repo_url s) \<and>
   (GITHUB_TOKEN s \<noteq> [] \<longrightarrow>
      (\<forall>rest. repo_url s = ascii ''https://'' @ rest \<longrightarrow>
         fetch_address s =
           ascii ''https://'' @ GITHUB_TOKEN s @ ascii ''@'' @
           replace rest (ascii ''https://'') (ascii ''https://'' @ GITHUB_TOKEN s @ ascii ''@'')) \<and>
      (\<not> occurs_in (ascii ''https://'') (repo_url s) \<longrightarrow> fetch_address s = repo_url s))"
proof (intro conjI impI allI)
  assume "local_paths s (local_repo_path s) \<noteq> None"
  then obtain node where "local_paths s (local_repo_path s) = Some node" by auto
  then show "clone_calls (snd (clone_repo s)) = clone_calls s"
    by (simp add: clone_repo_present Repo_clone_calls fix_git_ownership_fields)
next
  fix r assume "local_paths s (local_repo_path s) = Some (Repository r)"
  then have "clone_repo s =
      (None, (fix_git_ownership (abspath s (local_repo_path s)) s)\<lparr>repo := Some r\<rparr>)"
    by (simp add: clone_repo_present Repo_opens fix_git_ownership_fields)
  then show "fst (clone_repo s) = None" and "repo (snd (clone_repo s)) = Some r"
    by simp_all
next
  assume "local_paths s (local_repo_path s) = None"
  then show "clone_calls (snd (clone_repo s)) = clone_calls s @ [fetch_address s]"
    by (simp add: clone_repo_absent clone_from_clone_calls fix_git_ownership_fields)
next
  fix r
  assume a: "local_paths s (local_repo_path s) = None"
    and f: "remotes s (fetch_address s) = Some r"
  let ?s = "fix_git_ownership (abspath s (local_repo_path s)) s"
  from f have "remotes ?s (fetch_address s) = Some r"
    by (simp add: fix_git_ownership_fields)
  from clone_from_fetches [OF this, of "local_repo_path s"] a
  have "clone_repo s =
      (None, ?s\<lparr>clone_calls := clone_calls ?s @ [fetch_address s],
                 local_paths := (local_paths ?s)(local_repo_path s \<mapsto> Repository r),
                 repo := Some r\<rparr>)"
    by (simp add: clone_repo_absent)
  then show "fst (clone_repo s) = None" and "repo (snd (clone_repo s)) = Some r"
    and "local_paths (snd (clone_repo s)) (local_repo_path s) = Some (Repository r)"
    by simp_all
next
  assume "GITHUB_TOKEN s = []"
  then show "fetch_address s = repo_url s"
    by (simp add: fetch_address_def)
next
  fix rest
  assume t: "GITHUB_TOKEN s \<noteq> []" and u: "repo_url s = ascii ''https://'' @ rest"
  have ne: "ascii ''https://'' \<noteq> []" by (simp add: ascii_def)
  from t u show "fetch_address s =
           ascii ''https://'' @ GITHUB_TOKEN s @ ascii ''@'' @
           replace rest (ascii ''https://'') (ascii ''https://'' @ GITHUB_TOKEN s @ ascii ''@'')"
    by (simp add: fetch_address_def replace_def ne replace_from_prefix [OF ne])
next
  assume t: "GITHUB_TOKEN s \<noteq> []" and n: "\<not> occurs_in (ascii ''https://'') (repo_url s)"
  have ne: "ascii ''https://'' \<noteq> []" by (simp add: ascii_def)
  from n have "replace_from (ascii ''https://'')
      (ascii ''https://'' @ GITHUB_TOKEN s @ ascii ''@'') (repo_url s) = repo_url s"
    by (intro replace_from_absent) (simp add: occurs_in_def)
  with t show "fetch_address s = repo_url s"
    by (simp add: fetch_address_def replace_def ne)
qed

theorem clone_repo_by_presence_witness:
  "local_paths already_cloned (local_repo_path already_cloned) =
     Some (Repository (Log [commit_at ''A'' 100 1 0])) \<and>
   clone_calls (snd (clone_repo already_cloned)) = clone_calls already_cloned \<and>
   fst (clone_repo already_cloned) = None \<and>
   repo (snd (clone_repo already_cloned)) = Some (Log [commit_at ''A'' 100 1 0]) \<and>
   local_paths with_token (local_repo_path with_token) = None \<and>
   GITHUB_TOKEN with_token \<noteq> [] \<and>
   repo_url with_token = ascii ''https://'' @ ascii ''github.com/psf/requests.git'' \<and>
   fetch_address with_token = ascii ''https://tok@github.com/psf/requests.git'' \<and>
   clone_calls (snd (clone_repo with_token)) = [ascii ''https://tok@github.com/psf/requests.git''] \<and>
   fst (clone_repo with_token) = None \<and>
   repo (snd (clone_repo with_token)) = Some (Log [commit_at ''A'' 100 1 0]) \<and>
   local_paths (snd (clone_repo with_token)) (local_repo_path with_token) =
     Some (Repository (Log [commit_at ''A'' 100 1 0])) \<and>
   GITHUB_TOKEN (analyzer_on None) = [] \<and>
   fetch_address (analyzer_on None) = repo_url (analyzer_on None) \<and>
   GITHUB_TOKEN ssh_reference \<noteq> [] \<and>
   \<not> occurs_in (ascii ''https://'') (repo_url ssh_reference) \<and>
   fetch_address ssh_reference = repo_url ssh_reference"
proof -
  note c = clone_repo_by_presence [of already_cloned]
  note w = clone_repo_by_presence [of with_token]
  note n = clone_repo_by_presence [of "analyzer_on None"]
  note h = clone_repo_by_presence [of ssh_reference]
  have c1: "local_paths already_cloned (local_repo_path already_cloned) =
     Some (Repository (Log [commit_at ''A'' 100 1 0]))"
    by (rule already_cloned_fields)
  from c c1 have c2: "clone_calls (snd (clone_repo already_cloned)) = clone_calls already_cloned"
    and c3: "fst (clone_repo already_cloned) = None"
    and c4: "repo (snd (clone_repo already_cloned)) = Some (Log [commit_at ''A'' 100 1 0])"
    by simp_all
  have w1: "local_paths with_token (local_repo_path with_token) = None"
    and w2: "GITHUB_TOKEN with_token \<noteq> []"
    and w3: "repo_url with_token = ascii ''https://'' @ ascii ''github.com/psf/requests.git''"
    by (simp_all add: with_token_fields ascii_def)
  from w w2 w3 have "fetch_address with_token =
      ascii ''https://'' @ GITHUB_TOKEN with_token @ ascii ''@'' @
      replace (ascii ''github.com/psf/requests.git'') (ascii ''https://'')
        (ascii ''https://'' @ GITHUB_TOKEN with_token @ ascii ''@'')"
    by blast
  also have "ascii ''https://'' @ GITHUB_TOKEN with_token @ ascii ''@'' = ascii ''https://tok@''"
    by (simp add: with_token_fields ascii_def)
  finally have w4: "fetch_address with_token = ascii ''https://tok@github.com/psf/requests.git''"
    by (simp add: replace_rest with_token_fields) (simp add: ascii_def)
  then have w5: "remotes with_token (fetch_address with_token) = Some (Log [commit_at ''A'' 100 1 0])"
    by (simp add: with_token_fields)
  from w w1 w5 have w6: "clone_calls (snd (clone_repo with_token)) =
      clone_calls with_token @ [fetch_address with_token]"
    and w7: "fst (clone_repo with_token) = None"
    and w8: "repo (snd (clone_repo with_token)) = Some (Log [commit_at ''A'' 100 1 0])"
    and w9: "local_paths (snd (clone_repo with_token)) (local_repo_path with_token) =
     Some (Repository (Log [commit_at ''A'' 100 1 0]))"
    by blast+
  have n1: "GITHUB_TOKEN (analyzer_on None) = []"
    by (simp add: analyzer_on_def)
  with n have n2: "fetch_address (analyzer_on None) = repo_url (analyzer_on None)"
    by blast
  have h1: "GITHUB_TOKEN ssh_reference \<noteq> []"
    by (simp add: ssh_reference_fields ascii_def)
  have h2: "\<not> occurs_in (ascii ''https://'') (repo_url ssh_reference)"
    by (simp add: ssh_reference_fields ssh_reference_no_https)
  from h h1 h2 have h3: "fetch_address ssh_reference = repo_url ssh_reference"
    by blast
  from c1 c2 c3 c4 w1 w2 w3 w4 w6 w7 w8 w9 n1 n2 h1 h2 h3 show ?thesis
    by (simp add: with_token_fields)
qed

text \<open>
  C10, as claimed, says that the token is in the fetch address exactly when a token is
  configured.  For a reference in the SSH form, with a token configured and no local copy,
  the address fetched is the reference itself.
\<close>

theorem token_not_injected_into_ssh_reference:
  "GITHUB_TOKEN ssh_reference = ascii ''tok'' \<and>
   local_paths ssh_reference (local_repo_path ssh_reference) = None \<and>
   repo_url ssh_reference = ascii ''git@github.com:psf/requests.git'' \<and>
   clone_calls (snd (clone_repo ssh_reference)) = [ascii ''git@github.com:psf/requests.git'']"
  by (simp add: ssh_reference_fields clone_repo_absent clone_from_clone_calls
      fix_git_ownership_fields ssh_reference_address)

end
